theory Spec2Isabelle
  imports Complex_Main "HOL-Library.Multiset" "HOL-Library.Log_Nat"
begin

section \<open>Data model of the consensus engine\<close>

text \<open>
  The engine of \<^verbatim>\<open>src/consensus/consensus_engine.py\<close> works on dictionaries decoded from
  the reviewers' JSON answers. A dictionary is a record whose fields are the keys the
  reviewers are asked for (the JSON format of \<^verbatim>\<open>_build_analysis_prompt\<close>) and the keys
  the engine adds; a field is \<open>None\<close> when the key is absent. Values have the types
  of that format: strings, lists of strings, integer line numbers. A confidence or
  a score is a Python float, held as the rational number the double denotes; the
  arithmetic on them rounds as binary doubles do (see \<open>to_double\<close> below).
\<close>

record target_dict =
  file_path :: "string option"
  start_line :: "int option"
  end_line :: "int option"
  code_snippet :: "string option"

record recommendation_dict =
  insecure_snippet :: "string option"
  secure_snippet :: "string option"
  rationale :: "string option"

record consensus_info_dict =
  source_agents :: "string list"
  agreement_count :: nat
  consensus_confidence :: rat
  verified :: bool

record finding =
  finding_description :: "string option"
  severity :: "string option"
  cvss_score :: "rat option"
  cwe :: "string list option"
  target :: "target_dict option"
  recommendation :: "recommendation_dict option"
  confidence :: "rat option"
  source_agent :: "string option"
  rejection_reason :: "string option"
  consensus_info :: "consensus_info_dict option"

text \<open>\<^verbatim>\<open>d.get(key, default)\<close>: the value of a key, or the default when it is absent.\<close>

definition dict_get :: "'a option \<Rightarrow> 'a \<Rightarrow> 'a" where
  "dict_get v d = (case v of None \<Rightarrow> d | Some x \<Rightarrow> x)"

text \<open>The empty dictionary \<^verbatim>\<open>{}\<close>, as a target and as a finding.\<close>

definition empty_target :: target_dict where
  "empty_target =
     \<lparr>file_path = None, start_line = None, end_line = None, code_snippet = None\<rparr>"

definition empty_finding :: finding where
  "empty_finding =
     \<lparr>finding_description = None, severity = None, cvss_score = None, cwe = None,
      target = None, recommendation = None, confidence = None, source_agent = None,
      rejection_reason = None, consensus_info = None\<rparr>"

section \<open>Strings\<close>

text \<open>
  \<^verbatim>\<open>str.lower()\<close> and \<^verbatim>\<open>str.split()\<close> on ASCII text. \<^verbatim>\<open>split()\<close> without a
  separator cuts at runs of whitespace and yields no empty word; Python's ASCII
  whitespace is the characters 9 to 13, 28 to 31 and 32.
\<close>

definition lower_char :: "char \<Rightarrow> char" where
  "lower_char c =
     (let n = (of_char c :: nat) in if 65 \<le> n \<and> n \<le> 90 then char_of (n + 32) else c)"

definition str_lower :: "string \<Rightarrow> string" where
  "str_lower s = map lower_char s"

definition is_space :: "char \<Rightarrow> bool" where
  "is_space c =
     (let n = (of_char c :: nat) in (9 \<le> n \<and> n \<le> 13) \<or> (28 \<le> n \<and> n \<le> 32))"

fun split_words :: "string \<Rightarrow> string \<Rightarrow> string list" where
  "split_words w [] = (if w = [] then [] else [w])"
| "split_words w (c # cs) =
     (if is_space c then (if w = [] then split_words [] cs else w # split_words [] cs)
      else split_words (w @ [c]) cs)"

definition str_split :: "string \<Rightarrow> string list" where
  "str_split s = split_words [] s"

section \<open>The similarity predicate\<close>

text \<open>
  \<^verbatim>\<open>ConsensusEngine._are_similar\<close> (lines 91 to 124), named \<open>are_similar\<close> here since an
  Isabelle name cannot start with an underscore. The three checks are tried in the
  order of the source, each returning \<open>True\<close> at once.
\<close>

definition are_similar :: "finding \<Rightarrow> finding \<Rightarrow> bool" where
  "are_similar finding1 finding2 =
     (let cwe1 = set (dict_get (cwe finding1) []);
          cwe2 = set (dict_get (cwe finding2) [])
      in if cwe1 \<noteq> {} \<and> cwe2 \<noteq> {} \<and>
            rat_of_nat (card (cwe1 \<inter> cwe2)) / rat_of_nat (card (cwe1 \<union> cwe2)) > 1 / 2
         then True
         else
           let target1 = dict_get (target finding1) empty_target;
               target2 = dict_get (target finding2) empty_target
           in if file_path target1 = file_path target2 \<and>
                 \<bar>dict_get (start_line target1) 0 - dict_get (start_line target2) 0\<bar> < 5
              then True
              else
                let desc1 = str_lower (dict_get (finding_description finding1) []);
                    desc2 = str_lower (dict_get (finding_description finding2) []);
                    common_words = set (str_split desc1) \<inter> set (str_split desc2)
                in if card common_words > 3 then True else False)"

text \<open>The three signals of the predicate, each on its own.\<close>

definition cwe_signal :: "finding \<Rightarrow> finding \<Rightarrow> bool" where
  "cwe_signal finding1 finding2 =
     (let cwe1 = set (dict_get (cwe finding1) []);
          cwe2 = set (dict_get (cwe finding2) [])
      in cwe1 \<noteq> {} \<and> cwe2 \<noteq> {} \<and>
         rat_of_nat (card (cwe1 \<inter> cwe2)) / rat_of_nat (card (cwe1 \<union> cwe2)) > 1 / 2)"

definition location_signal :: "finding \<Rightarrow> finding \<Rightarrow> bool" where
  "location_signal finding1 finding2 =
     (let target1 = dict_get (target finding1) empty_target;
          target2 = dict_get (target finding2) empty_target
      in file_path target1 = file_path target2 \<and>
         \<bar>dict_get (start_line target1) 0 - dict_get (start_line target2) 0\<bar> < 5)"

definition description_signal :: "finding \<Rightarrow> finding \<Rightarrow> bool" where
  "description_signal finding1 finding2 =
     (let desc1 = str_lower (dict_get (finding_description finding1) []);
          desc2 = str_lower (dict_get (finding_description finding2) [])
      in card (set (str_split desc1) \<inter> set (str_split desc2)) > 3)"

section \<open>Objects and the store\<close>

text \<open>
  \<^verbatim>\<open>build_consensus\<close> writes into the findings it is given
  (\<^verbatim>\<open>finding['source_agent'] = ...\<close>, \<^verbatim>\<open>finding['rejection_reason'] = ...\<close>), and the
  lists it builds hold those same objects. A finding object is therefore a reference
  into a store; a list of findings is a list of references, in which one object may
  occur more than once.
\<close>

type_synonym ref = nat

type_synonym heap = "ref \<Rightarrow> finding"

text \<open>
  One reviewer's result. The engine reads the keys \<^verbatim>\<open>agent\<close> and \<^verbatim>\<open>findings\<close> only
  (a result may carry \<^verbatim>\<open>model\<close>, \<^verbatim>\<open>file_path\<close>, \<^verbatim>\<open>error\<close>, \<^verbatim>\<open>raw_response\<close> as well).
\<close>

record agent_result =
  agent :: "string option"
  findings :: "ref list option"

record ConsensusEngine =
  min_agreement :: int
  similarity_threshold :: rat

record statistics_dict =
  total_findings :: nat
  consensus_count :: nat
  rejected_count :: nat

text \<open>
  The dictionary \<^verbatim>\<open>build_consensus\<close> returns. The consensus findings are new
  dictionaries (copies); the rejected findings are the input objects themselves.
\<close>

record consensus_result =
  consensus_findings :: "finding list"
  rejected_findings :: "ref list"
  total_agents :: nat
  agreement_threshold :: int
  statistics :: statistics_dict

datatype error = ValueError | KeyError

section \<open>Clustering\<close>

text \<open>
  \<^verbatim>\<open>_cluster_findings\<close> (lines 67 to 89). \<open>cluster_scan\<close> is the inner loop over
  \<^verbatim>\<open>enumerate(findings)\<close> (lines 79 to 85), \<open>cluster_loop\<close> the outer one (lines 72
  to 87); both carry the cluster or the clusters built so far and \<^verbatim>\<open>used_indices\<close>.
\<close>

fun cluster_scan ::
  "heap \<Rightarrow> ref \<Rightarrow> nat \<Rightarrow> (nat \<times> ref) list \<Rightarrow> ref list \<times> nat set \<Rightarrow> ref list \<times> nat set" where
  "cluster_scan h finding1 i [] (cluster, used_indices) = (cluster, used_indices)"
| "cluster_scan h finding1 i ((j, finding2) # rest) (cluster, used_indices) =
     (if j \<in> used_indices \<or> i = j then cluster_scan h finding1 i rest (cluster, used_indices)
      else if are_similar (h finding1) (h finding2)
        then cluster_scan h finding1 i rest (cluster @ [finding2], insert j used_indices)
        else cluster_scan h finding1 i rest (cluster, used_indices))"

fun cluster_loop ::
  "heap \<Rightarrow> (nat \<times> ref) list \<Rightarrow> (nat \<times> ref) list \<Rightarrow> ref list list \<times> nat set \<Rightarrow> ref list list" where
  "cluster_loop h fs [] (clusters, used_indices) = clusters"
| "cluster_loop h fs ((i, finding1) # rest) (clusters, used_indices) =
     (if i \<in> used_indices then cluster_loop h fs rest (clusters, used_indices)
      else
        (case cluster_scan h finding1 i fs ([finding1], insert i used_indices) of
           (cluster, used') \<Rightarrow> cluster_loop h fs rest (clusters @ [cluster], used')))"

definition cluster_findings :: "heap \<Rightarrow> ref list \<Rightarrow> ref list list" where
  "cluster_findings h fs = cluster_loop h (enumerate 0 fs) (enumerate 0 fs) ([], {})"

section \<open>Building a consensus finding\<close>

text \<open>
  \<^verbatim>\<open>max(iterable, key=...)\<close> keeps the first item and replaces it only by an item with a
  strictly greater key; \<open>max_by key best xs\<close> is that loop after the first item.
\<close>

fun max_by :: "('a \<Rightarrow> 'b::linorder) \<Rightarrow> 'a \<Rightarrow> 'a list \<Rightarrow> 'a" where
  "max_by key best [] = best"
| "max_by key best (x # xs) = (if key x > key best then max_by key x xs else max_by key best xs)"

text \<open>
  Python floats are IEEE 754 binary64 numbers. A finite double is the rational it
  denotes; \<open>to_double\<close> rounds a rational to the nearest double, a value halfway between
  two doubles going to the one with the even significand. The significand has 53
  bits, and the exponent of the last place is at least \<open>-1074\<close> (gradual underflow).
  Infinities and NaN are outside the model: the exponent is not bounded from above.
\<close>

definition round_half_even :: "rat \<Rightarrow> int" where
  "round_half_even x =
     (let f = \<lfloor>x\<rfloor>; d = x - of_int f
      in if d < 1 / 2 then f else if d > 1 / 2 then f + 1 else if even f then f else f + 1)"

definition pow2 :: "int \<Rightarrow> rat" where
  "pow2 e = (if 0 \<le> e then 2 ^ nat e else 1 / 2 ^ nat (- e))"

definition ulp_exponent :: "rat \<Rightarrow> int" where
  "ulp_exponent x =
     (case quotient_of \<bar>x\<bar> of
        (p, q) \<Rightarrow>
          let l = bitlen p - bitlen q;
              fl = (if pow2 l \<le> \<bar>x\<bar> then l else l - 1)
          in max (fl - 52) (- 1074))"

definition to_double :: "rat \<Rightarrow> rat" where
  "to_double x =
     (if x = 0 then 0
      else let e = ulp_exponent x
           in rat_of_int (round_half_even (x / pow2 e)) * pow2 e)"

text \<open>
  Float addition and true division are correctly rounded. \<^verbatim>\<open>sum\<close> starts from \<open>0\<close> and
  adds the items from left to right (CPython up to 3.11; from 3.12 on it carries a
  compensation term, which changes nothing for one or two items).
\<close>

definition float_add :: "rat \<Rightarrow> rat \<Rightarrow> rat" where
  "float_add x y = to_double (x + y)"

definition float_div :: "rat \<Rightarrow> rat \<Rightarrow> rat" where
  "float_div x y = to_double (x / y)"

fun py_sum :: "rat \<Rightarrow> rat list \<Rightarrow> rat" where
  "py_sum acc [] = acc"
| "py_sum acc (x # xs) = py_sum (float_add acc x) xs"

text \<open>
  \<^verbatim>\<open>round(x, ndigits)\<close> on a float: the exact value of \<open>x\<close> is rounded to the nearest
  multiple of \<open>10 ^ -ndigits\<close>, a value halfway between two of them going to the even
  one, and the result is the double nearest to that decimal.
\<close>

definition py_round :: "rat \<Rightarrow> nat \<Rightarrow> rat" where
  "py_round x ndigits =
     to_double (rat_of_int (round_half_even (x * 10 ^ ndigits)) / 10 ^ ndigits)"

text \<open>The key of line 129 and the summand of line 133: \<^verbatim>\<open>f.get('confidence', 0.5)\<close>.\<close>

definition confidence_of :: "heap \<Rightarrow> ref \<Rightarrow> rat" where
  "confidence_of h f = dict_get (confidence (h f)) (1 / 2)"

text \<open>
  \<^verbatim>\<open>_build_consensus_finding\<close> (lines 126 to 143). \<^verbatim>\<open>max\<close> of an empty cluster raises
  ValueError; \<^verbatim>\<open>f['source_agent']\<close> raises KeyError for a member without that key
  (\<open>those\<close> is \<open>None\<close> then). The result is a new dictionary: the store is only read.
\<close>

definition build_consensus_finding :: "heap \<Rightarrow> ref list \<Rightarrow> error + finding" where
  "build_consensus_finding h cluster =
     (case cluster of
        [] \<Rightarrow> Inl ValueError
      | first # others \<Rightarrow>
          let base_finding = max_by (confidence_of h) first others
          in (case those (map (\<lambda>f. source_agent (h f)) cluster) of
                None \<Rightarrow> Inl KeyError
              | Some agents \<Rightarrow>
                  let avg_confidence =
                        float_div (py_sum 0 (map (confidence_of h) cluster))
                          (rat_of_nat (length cluster));
                      consensus = h base_finding
                  in Inr (consensus\<lparr>consensus_info := Some
                       \<lparr>source_agents = agents,
                        agreement_count = length cluster,
                        consensus_confidence = py_round avg_confidence 2,
                        verified = True\<rparr>\<rparr>)))"

section \<open>The orchestration\<close>

text \<open>
  \<^verbatim>\<open>str(n)\<close> for a length, as the f-string of line 52 formats it: the decimal
  numeral of \<open>n\<close>.
\<close>

fun str_nat :: "nat \<Rightarrow> string" where
  "str_nat n =
     (if n < 10 then [char_of (48 + n)] else str_nat (n div 10) @ [char_of (48 + n mod 10)])"

declare str_nat.simps [simp del]

definition rejection_text :: "nat \<Rightarrow> string" where
  "rejection_text n = ''Only '' @ str_nat n @ '' agent(s) agreed''"

text \<open>Lines 33 to 35: one reviewer's findings are tagged in place and collected.\<close>

fun tag_findings :: "string \<Rightarrow> ref list \<Rightarrow> ref list \<times> heap \<Rightarrow> ref list \<times> heap" where
  "tag_findings agent_name [] (all_findings, h) = (all_findings, h)"
| "tag_findings agent_name (f # rest) (all_findings, h) =
     tag_findings agent_name rest
       (all_findings @ [f], h(f := (h f)\<lparr>source_agent := Some agent_name\<rparr>))"

text \<open>Lines 31 to 35: the loop over the reviewers' results.\<close>

fun collect_findings :: "agent_result list \<Rightarrow> ref list \<times> heap \<Rightarrow> ref list \<times> heap" where
  "collect_findings [] s = s"
| "collect_findings (result # rest) s =
     (let agent_name = dict_get (agent result) ''unknown''
      in collect_findings rest (tag_findings agent_name (dict_get (findings result) []) s))"

text \<open>Lines 51 to 53: the members of a rejected cluster of size \<open>n\<close> are stamped in place.\<close>

fun reject_cluster :: "nat \<Rightarrow> ref list \<Rightarrow> ref list \<times> heap \<Rightarrow> ref list \<times> heap" where
  "reject_cluster n [] (rejected, h) = (rejected, h)"
| "reject_cluster n (f # rest) (rejected, h) =
     reject_cluster n rest
       (rejected @ [f], h(f := (h f)\<lparr>rejection_reason := Some (rejection_text n)\<rparr>))"

text \<open>Lines 44 to 53: the loop over the clusters. An exception ends it.\<close>

fun decide_clusters ::
  "int \<Rightarrow> ref list list \<Rightarrow> finding list \<times> ref list \<times> heap
     \<Rightarrow> error + (finding list \<times> ref list \<times> heap)" where
  "decide_clusters m [] s = Inr s"
| "decide_clusters m (cluster # rest) (consensus, rejected, h) =
     (if int (length cluster) \<ge> m then
        (case build_consensus_finding h cluster of
           Inl e \<Rightarrow> Inl e
         | Inr c \<Rightarrow> decide_clusters m rest (consensus @ [c], rejected, h))
      else
        (case reject_cluster (length cluster) cluster (rejected, h) of
           (rejected', h') \<Rightarrow> decide_clusters m rest (consensus, rejected', h')))"

text \<open>
  \<^verbatim>\<open>build_consensus\<close> (lines 15 to 65): from the engine, the reviewers' results and the
  store to the returned dictionary and the store the caller is left with.
\<close>

definition build_consensus ::
  "ConsensusEngine \<Rightarrow> agent_result list \<Rightarrow> heap \<Rightarrow> error + (consensus_result \<times> heap)" where
  "build_consensus self agent_results h0 =
     (case collect_findings agent_results ([], h0) of
        (all_findings, h1) \<Rightarrow>
          let finding_clusters = cluster_findings h1 all_findings
          in (case decide_clusters (min_agreement self) finding_clusters ([], [], h1) of
                Inl e \<Rightarrow> Inl e
              | Inr (consensus, rejected, h2) \<Rightarrow>
                  Inr (\<lparr>consensus_findings = consensus,
                        rejected_findings = rejected,
                        total_agents = length agent_results,
                        agreement_threshold = min_agreement self,
                        statistics =
                          \<lparr>total_findings = length all_findings,
                           consensus_count = length consensus,
                           rejected_count = length rejected\<rparr>\<rparr>, h2)))"

section \<open>Characterisations used in the proofs\<close>

text \<open>
  Similarity of two objects of a store, and the clusters the two loops of
  \<open>cluster_findings\<close> are shown to compute: the first item not yet clustered seeds a
  cluster and takes every later unclustered item similar to it.
\<close>

definition similar_in :: "heap \<Rightarrow> ref \<Rightarrow> ref \<Rightarrow> bool" where
  "similar_in h a b = are_similar (h a) (h b)"

fun seed_clusters :: "('a \<Rightarrow> 'a \<Rightarrow> bool) \<Rightarrow> 'a list \<Rightarrow> 'a list list" where
  "seed_clusters sim [] = []"
| "seed_clusters sim (x # xs) =
     (x # filter (sim x) xs) # seed_clusters sim (filter (\<lambda>y. \<not> sim x y) xs)"

text \<open>The two keys \<open>collect_findings\<close> reads from a reviewer's result, with their defaults.\<close>

definition findings_of :: "agent_result \<Rightarrow> ref list" where
  "findings_of result = dict_get (findings result) []"

definition agent_of :: "agent_result \<Rightarrow> string" where
  "agent_of result = dict_get (agent result) ''unknown''"

text \<open>Lists that pairwise share no element.\<close>

abbreviation disjoint_lists :: "'a list list \<Rightarrow> bool" where
  "disjoint_lists \<equiv> sorted_wrt (\<lambda>c c'. set c \<inter> set c' = {})"

text \<open>
  Reading a decimal numeral: the number that a non-empty string of the digits
  \<^verbatim>\<open>0\<close> to \<^verbatim>\<open>9\<close> denotes, most significant digit first. A digit's value is its
  place in \<^verbatim>\<open>0123456789\<close>.
\<close>

definition digit_of :: "char \<Rightarrow> nat option" where
  "digit_of c = map_of (zip ''0123456789'' [0 ..< 10]) c"

fun digits_value :: "nat \<Rightarrow> string \<Rightarrow> nat option" where
  "digits_value v [] = Some v"
| "digits_value v (c # cs) =
     (case digit_of c of None \<Rightarrow> None | Some d \<Rightarrow> digits_value (10 * v + d) cs)"

definition decimal_value :: "string \<Rightarrow> nat option" where
  "decimal_value s = (if s = [] then None else digits_value 0 s)"

text \<open>The agreement count a consensus finding records.\<close>

definition agreement_of :: "finding \<Rightarrow> nat" where
  "agreement_of f = (case consensus_info f of None \<Rightarrow> 0 | Some info \<Rightarrow> agreement_count info)"

section \<open>An example run\<close>

text \<open>
  The constructor (lines 11 to 13), and the data of the examples: three findings on
  \<^verbatim>\<open>app.py\<close> from two reviewers, and a third reviewer that returned nothing. The two
  findings at lines 10 and 12 differ in category and wording and have the
  confidences \<^verbatim>\<open>0.9\<close> and \<^verbatim>\<open>0.95\<close>, as doubles; the third has no confidence.
\<close>

definition ConsensusEngine_init :: "int \<Rightarrow> rat \<Rightarrow> ConsensusEngine" where
  "ConsensusEngine_init m t = \<lparr>min_agreement = m, similarity_threshold = t\<rparr>"

definition sql_login :: finding where
  "sql_login = empty_finding
     \<lparr>finding_description := Some ''SQL injection in login query'',
      severity := Some ''Critical'',
      cwe := Some [''CWE-89''],
      target := Some \<lparr>file_path = Some ''app.py'', start_line = Some 10,
                      end_line = Some 15, code_snippet = None\<rparr>,
      confidence := Some (to_double (9 / 10))\<rparr>"

definition sql_format :: finding where
  "sql_format = empty_finding
     \<lparr>finding_description := Some ''User input formatted into a database statement'',
      severity := Some ''High'',
      cwe := Some [''CWE-564''],
      target := Some \<lparr>file_path = Some ''app.py'', start_line = Some 12,
                      end_line = Some 12, code_snippet = None\<rparr>,
      confidence := Some (to_double (19 / 20))\<rparr>"

definition secret_key :: finding where
  "secret_key = empty_finding
     \<lparr>finding_description := Some ''Hardcoded secret key'',
      severity := Some ''Medium'',
      cwe := Some [''CWE-798''],
      target := Some \<lparr>file_path = Some ''app.py'', start_line = Some 20,
                      end_line = Some 20, code_snippet = None\<rparr>\<rparr>"

definition example_store :: heap where
  "example_store = (\<lambda>_. empty_finding)(0 := sql_login, 1 := secret_key, 2 := sql_format)"

definition example_results :: "agent_result list" where
  "example_results =
     [\<lparr>agent = Some ''gpt4'', findings = Some [0, 1]\<rparr>,
      \<lparr>agent = Some ''grok'', findings = Some [2]\<rparr>,
      \<lparr>agent = None, findings = Some []\<rparr>]"

text \<open>The store after the findings of \<open>example_results\<close> have been tagged.\<close>

definition example_tagged :: heap where
  "example_tagged =
     (\<lambda>_. empty_finding)
       (0 := sql_login\<lparr>source_agent := Some ''gpt4''\<rparr>,
        1 := secret_key\<lparr>source_agent := Some ''gpt4''\<rparr>,
        2 := sql_format\<lparr>source_agent := Some ''grok''\<rparr>)"

text \<open>What a call returned, and an object of the store it left, if it returned.\<close>

definition result_of :: "error + (consensus_result \<times> heap) \<Rightarrow> consensus_result option" where
  "result_of x = (case x of Inl e \<Rightarrow> None | Inr (r, h) \<Rightarrow> Some r)"

definition finding_after :: "error + (consensus_result \<times> heap) \<Rightarrow> ref \<Rightarrow> finding option" where
  "finding_after x a = (case x of Inl e \<Rightarrow> None | Inr (r, h) \<Rightarrow> Some (h a))"

section \<open>Properties of the similarity predicate\<close>

lemma are_similar_signals:
  "are_similar a b = (cwe_signal a b \<or> location_signal a b \<or> description_signal a b)"
  by (simp add: are_similar_def cwe_signal_def location_signal_def description_signal_def
      Let_def)

lemma cwe_signal_commute: "cwe_signal a b = cwe_signal b a"
  by (auto simp: cwe_signal_def Let_def Int_commute Un_commute)

lemma location_signal_commute: "location_signal a b = location_signal b a"
  by (auto simp: location_signal_def Let_def)

lemma description_signal_commute: "description_signal a b = description_signal b a"
  by (simp add: description_signal_def Let_def Int_commute)

lemma location_signal_refl: "location_signal a a"
  by (simp add: location_signal_def Let_def)

lemma are_similar_refl: "are_similar a a"
  by (simp add: are_similar_signals location_signal_refl)

text \<open>
  C6: \<open>are_similar\<close> is symmetric. Each of its three signals (category overlap above
  one half, same file path with start lines less than 5 apart, more than 3 common
  words) is commutative, and the predicate is their disjunction.
\<close>

theorem are_similar_symmetric:
  "are_similar a b = are_similar b a \<and>
   cwe_signal a b = cwe_signal b a \<and>
   location_signal a b = location_signal b a \<and>
   description_signal a b = description_signal b a \<and>
   are_similar a b = (cwe_signal a b \<or> location_signal a b \<or> description_signal a b)"
  using cwe_signal_commute [of a b] location_signal_commute [of a b]
    description_signal_commute [of a b]
  by (simp add: are_similar_signals)

text \<open>
  C10, as the claim states it, fails: a target without a file path may still carry a
  start line, and then the line distance decides. Here the first finding has a target
  with start line 100 and no path, the second has no target; neither has categories
  or a description.
\<close>

theorem no_path_not_similar_counterexample:
  "file_path (dict_get (target (empty_finding\<lparr>target :=
       Some (empty_target\<lparr>start_line := Some 100\<rparr>)\<rparr>)) empty_target) = None \<and>
   file_path (dict_get (target empty_finding) empty_target) = None \<and>
   \<not> are_similar
       (empty_finding\<lparr>target := Some (empty_target\<lparr>start_line := Some 100\<rparr>)\<rparr>)
       empty_finding"
  by (simp add: are_similar_def empty_finding_def empty_target_def dict_get_def
      str_split_def str_lower_def)

text \<open>
  C10, amended: two findings whose targets (the empty dictionary when the finding has
  none) hold no file path, and whose start lines (0 when absent) are less than 5
  apart, are similar, whatever their categories and descriptions. Two findings
  without a target, or with targets that hold neither key, are such a pair.
\<close>

theorem no_path_similar:
  assumes "file_path (dict_get (target a) empty_target) = None"
    and "file_path (dict_get (target b) empty_target) = None"
    and "\<bar>dict_get (start_line (dict_get (target a) empty_target)) 0 -
          dict_get (start_line (dict_get (target b) empty_target)) 0\<bar> < 5"
  shows "are_similar a b"
  using assms by (simp add: are_similar_signals location_signal_def Let_def)

theorem no_path_similar_witness:
  "are_similar
     (empty_finding\<lparr>finding_description := Some ''SQL injection in login'',
        cwe := Some [''CWE-89'']\<rparr>)
     (empty_finding\<lparr>finding_description := Some ''Hardcoded secret key'',
        cwe := Some [''CWE-798''], target := Some empty_target\<rparr>)"
  by (rule no_path_similar) (simp_all add: empty_finding_def empty_target_def dict_get_def)

section \<open>The two loops of the clusterer\<close>

lemma cluster_scan_eq:
  "distinct (map fst fs) \<Longrightarrow> i \<in> used \<Longrightarrow>
   cluster_scan h f1 i fs (cluster, used) =
     (cluster @ map snd (filter (\<lambda>p. fst p \<notin> used \<and> similar_in h f1 (snd p)) fs),
      used \<union> fst ` set (filter (\<lambda>p. fst p \<notin> used \<and> similar_in h f1 (snd p)) fs))"
proof (induction fs arbitrary: cluster used)
  case Nil
  then show ?case by simp
next
  case (Cons p fs)
  obtain j f2 where p: "p = (j, f2)" by (cases p)
  from Cons.prems have dist: "distinct (map fst fs)" and jfs: "j \<notin> fst ` set fs"
    by (auto simp: p)
  show ?case
  proof (cases "j \<notin> used \<and> similar_in h f1 f2")
    case True
    have same: "filter (\<lambda>p. fst p \<noteq> j \<and> fst p \<notin> used \<and> similar_in h f1 (snd p)) fs =
                filter (\<lambda>p. fst p \<notin> used \<and> similar_in h f1 (snd p)) fs"
      using jfs by (intro filter_cong) auto
    from True Cons.prems(2) have "i \<noteq> j" by auto
    with True show ?thesis
      using Cons.IH [OF dist, of "insert j used" "cluster @ [f2]"] Cons.prems(2)
      by (simp add: p same similar_in_def [symmetric])
  next
    case False
    then show ?thesis
      using Cons.IH [OF dist Cons.prems(2), of cluster]
      by (auto simp: p similar_in_def [symmetric])
  qed
qed

lemma cluster_loop_eq:
  "fs = pre @ rest \<Longrightarrow> distinct (map fst fs) \<Longrightarrow> fst ` set pre \<subseteq> used \<Longrightarrow>
   cluster_loop h fs rest (clusters, used) =
     clusters @ seed_clusters (similar_in h) (map snd (filter (\<lambda>p. fst p \<notin> used) rest))"
proof (induction rest arbitrary: pre clusters used)
  case Nil
  then show ?case by simp
next
  case (Cons p rest)
  obtain i f1 where p: "p = (i, f1)" by (cases p)
  have fs: "fs = (pre @ [p]) @ rest" using Cons.prems(1) by simp
  have dist: "distinct (map fst fs)" by (rule Cons.prems(2))
  have irest: "i \<notin> fst ` set rest" and ipre: "i \<notin> fst ` set pre"
    using Cons.prems(1,2) by (auto simp: p)
  show ?case
  proof (cases "i \<in> used")
    case True
    then have "fst ` set (pre @ [p]) \<subseteq> used" using Cons.prems(3) by (simp add: p)
    from Cons.IH [OF fs dist this, of clusters] True show ?thesis by (simp add: p)
  next
    case False
    let ?used0 = "insert i used"
    let ?new = "filter (\<lambda>p. fst p \<notin> used \<and> similar_in h f1 (snd p)) rest"
    have pre_none: "filter (\<lambda>p. fst p \<noteq> i \<and> fst p \<notin> used \<and> similar_in h f1 (snd p)) pre = []"
      using Cons.prems(3) by (auto simp: filter_empty_conv)
    have rest_same: "filter (\<lambda>p. fst p \<noteq> i \<and> fst p \<notin> used \<and> similar_in h f1 (snd p)) rest = ?new"
      using irest by (intro filter_cong) auto
    have picked: "filter (\<lambda>p. fst p \<notin> ?used0 \<and> similar_in h f1 (snd p)) fs = ?new"
      by (simp add: Cons.prems(1) pre_none rest_same p)
    have scan: "cluster_scan h f1 i fs ([f1], ?used0) =
                  (f1 # map snd ?new, ?used0 \<union> fst ` set ?new)"
    proof -
      have "cluster_scan h f1 i fs ([f1], ?used0) =
              ([f1] @ map snd (filter (\<lambda>p. fst p \<notin> ?used0 \<and> similar_in h f1 (snd p)) fs),
               ?used0 \<union> fst ` set (filter (\<lambda>p. fst p \<notin> ?used0 \<and> similar_in h f1 (snd p)) fs))"
        by (rule cluster_scan_eq [OF dist]) simp
      then show ?thesis unfolding picked by simp
    qed
    let ?used' = "?used0 \<union> fst ` set ?new"
    have sub: "fst ` set (pre @ [p]) \<subseteq> ?used'" using Cons.prems(3) by (auto simp: p)
    have distrest: "distinct (map fst rest)" using Cons.prems(1,2) by simp
    have left: "filter (\<lambda>p. fst p \<notin> ?used') rest =
                filter (\<lambda>p. fst p \<notin> used \<and> \<not> similar_in h f1 (snd p)) rest"
    proof (intro filter_cong refl)
      fix q assume q: "q \<in> set rest"
      have "fst q \<in> fst ` set ?new \<longleftrightarrow> fst q \<notin> used \<and> similar_in h f1 (snd q)"
      proof
        assume "fst q \<in> fst ` set ?new"
        then obtain q' where q': "q' \<in> set rest" "fst q' = fst q"
          "fst q' \<notin> used" "similar_in h f1 (snd q')" by auto
        from distrest q q'(1,2) have "q' = q"
          by (metis eq_key_imp_eq_value prod.collapse)
        with q' show "fst q \<notin> used \<and> similar_in h f1 (snd q)" by simp
      next
        assume "fst q \<notin> used \<and> similar_in h f1 (snd q)"
        with q show "fst q \<in> fst ` set ?new" by auto
      qed
      moreover have "fst q \<noteq> i" using q irest by auto
      ultimately show "(fst q \<notin> ?used') = (fst q \<notin> used \<and> \<not> similar_in h f1 (snd q))"
        by auto
    qed
    have "cluster_loop h fs (p # rest) (clusters, used) =
          cluster_loop h fs rest (clusters @ [f1 # map snd ?new], ?used')"
      using False by (simp add: p scan)
    also have "\<dots> = (clusters @ [f1 # map snd ?new]) @
                 seed_clusters (similar_in h) (map snd (filter (\<lambda>p. fst p \<notin> ?used') rest))"
      by (rule Cons.IH [OF fs dist sub])
    also have "\<dots> = clusters @
                 seed_clusters (similar_in h) (map snd (filter (\<lambda>p. fst p \<notin> used) (p # rest)))"
    proof -
      have a: "map snd (filter (\<lambda>p. fst p \<notin> used) (p # rest)) =
                 f1 # map snd (filter (\<lambda>p. fst p \<notin> used) rest)"
        using False by (simp add: p)
      have b: "map snd ?new =
                 filter (similar_in h f1) (map snd (filter (\<lambda>p. fst p \<notin> used) rest))"
        by (simp add: filter_map comp_def)
      have c: "map snd (filter (\<lambda>p. fst p \<notin> ?used') rest) =
                 filter (\<lambda>y. \<not> similar_in h f1 y)
                   (map snd (filter (\<lambda>p. fst p \<notin> used) rest))"
        unfolding left by (simp add: filter_map comp_def)
      show ?thesis unfolding a b c by simp
    qed
    finally show ?thesis .
  qed
qed

lemma cluster_findings_eq: "cluster_findings h fs = seed_clusters (similar_in h) fs"
  using cluster_loop_eq [of "enumerate 0 fs" "[]" "enumerate 0 fs" "{}" h "[]"]
  by (simp add: cluster_findings_def)

section \<open>Properties of the clusters\<close>

lemma seed_clusters_mset: "mset (concat (seed_clusters sim xs)) = mset xs"
proof (induction sim xs rule: seed_clusters.induct)
  case (1 sim)
  then show ?case by simp
next
  case (2 sim x xs)
  have "mset (filter (sim x) xs) + mset (filter (\<lambda>y. \<not> sim x y) xs) = mset xs"
    by (induction xs) simp_all
  with 2 show ?case by (simp add: add.assoc)
qed

lemma seed_clusters_set: "\<Union>(set ` set (seed_clusters sim xs)) = set xs"
proof -
  have "set (concat (seed_clusters sim xs)) = set xs"
    using seed_clusters_mset [of sim xs] by (metis set_mset_mset)
  then show ?thesis by simp
qed

lemma seed_clusters_subset: "c \<in> set (seed_clusters sim xs) \<Longrightarrow> set c \<subseteq> set xs"
  using seed_clusters_set [of sim xs] by blast

lemma seed_clusters_nonempty: "c \<in> set (seed_clusters sim xs) \<Longrightarrow> c \<noteq> []"
  by (induction sim xs rule: seed_clusters.induct) auto

lemma seed_clusters_disjoint:
  "(\<And>x. sim x x) \<Longrightarrow> i < j \<Longrightarrow> j < length (seed_clusters sim xs) \<Longrightarrow>
   set (seed_clusters sim xs ! i) \<inter> set (seed_clusters sim xs ! j) = {}"
proof (induction sim xs arbitrary: i j rule: seed_clusters.induct)
  case (1 sim)
  then show ?case by simp
next
  case (2 sim x xs)
  let ?rest = "seed_clusters sim (filter (\<lambda>y. \<not> sim x y) xs)"
  from "2.prems"(2,3) obtain j' where j: "j = Suc j'" and j': "j' < length ?rest"
    by (cases j) auto
  show ?case
  proof (cases i)
    case 0
    have "?rest ! j' \<in> set ?rest" using j' by simp
    then have "set (?rest ! j') \<subseteq> set (filter (\<lambda>y. \<not> sim x y) xs)"
      by (rule seed_clusters_subset)
    then have later: "\<forall>y \<in> set (?rest ! j'). \<not> sim x y" by auto
    have first: "\<forall>y \<in> set (x # filter (sim x) xs). sim x y"
      using "2.prems"(1) by simp
    from first later have "set (x # filter (sim x) xs) \<inter> set (?rest ! j') = {}"
      by blast
    then show ?thesis by (simp add: 0 j)
  next
    case (Suc i')
    with "2.prems"(2) j have "i' < j'" by simp
    from "2.IH" [OF "2.prems"(1) this j'] show ?thesis by (simp add: Suc j)
  qed
qed


section \<open>Tagging and collecting\<close>

lemma those_eq_Some: "(those xs = Some ys) = (xs = map Some ys)"
proof (induction xs arbitrary: ys)
  case Nil
  then show ?case by auto
next
  case (Cons x xs)
  then show ?case by (cases x; cases ys) (auto split: option.splits)
qed

lemma tag_findings_eq:
  "tag_findings name fs (all, h) =
     (all @ fs, \<lambda>a. if a \<in> set fs then (h a)\<lparr>source_agent := Some name\<rparr> else h a)"
  by (induction fs arbitrary: all h) (auto simp: fun_eq_iff)

lemma reject_cluster_eq:
  "reject_cluster n fs (rej, h) =
     (rej @ fs, \<lambda>a. if a \<in> set fs then (h a)\<lparr>rejection_reason := Some (rejection_text n)\<rparr> else h a)"
  by (induction fs arbitrary: rej h) (auto simp: fun_eq_iff)

lemma collect_findings_all:
  "fst (collect_findings rs (all, h)) = all @ concat (map findings_of rs)"
  by (induction rs arbitrary: all h) (simp_all add: tag_findings_eq findings_of_def)

lemma collect_findings_frame:
  "a \<notin> set (concat (map findings_of rs)) \<Longrightarrow> snd (collect_findings rs (all, h)) a = h a"
  by (induction rs arbitrary: all h) (simp_all add: tag_findings_eq findings_of_def)

lemma collect_findings_fields:
  "(snd (collect_findings rs (all, h)) a)\<lparr>source_agent := s\<rparr> = (h a)\<lparr>source_agent := s\<rparr>"
  by (induction rs arbitrary: all h) (simp_all add: tag_findings_eq findings_of_def)

lemma collect_findings_tagged:
  "a \<in> set (concat (map findings_of rs)) \<Longrightarrow>
   \<exists>r \<in> set rs. a \<in> set (findings_of r) \<and>
     source_agent (snd (collect_findings rs (all, h)) a) = Some (agent_of r)"
proof (induction rs arbitrary: all h)
  case Nil
  then show ?case by simp
next
  case (Cons r rs)
  let ?h1 = "\<lambda>a. if a \<in> set (findings_of r) then (h a)\<lparr>source_agent := Some (agent_of r)\<rparr> else h a"
  have step: "collect_findings (r # rs) (all, h) = collect_findings rs (all @ findings_of r, ?h1)"
    by (simp add: tag_findings_eq findings_of_def agent_of_def cong: if_cong)
  show ?case
  proof (cases "a \<in> set (concat (map findings_of rs))")
    case True
    from Cons.IH [OF this] show ?thesis unfolding step by auto
  next
    case False
    with Cons.prems have a: "a \<in> set (findings_of r)" by simp
    have "snd (collect_findings rs (all @ findings_of r, ?h1)) a = ?h1 a"
      using False by (rule collect_findings_frame)
    with a show ?thesis unfolding step by simp
  qed
qed


section \<open>Selecting the base finding\<close>



lemma max_by_in: "max_by key b xs \<in> set (b # xs)"
  by (induction xs arbitrary: b) auto

lemma max_by_cong:
  "(\<And>a. a \<in> set (b # xs) \<Longrightarrow> key1 a = key2 a) \<Longrightarrow> max_by key1 b xs = max_by key2 b xs"
  by (induction xs arbitrary: b) auto

lemma build_consensus_finding_cong:
  assumes "\<And>a. a \<in> set c \<Longrightarrow> h1 a = h2 a"
  shows "build_consensus_finding h1 c = build_consensus_finding h2 c"
proof (cases c)
  case Nil
  then show ?thesis by (simp add: build_consensus_finding_def)
next
  case (Cons b xs)
  have keys: "\<And>a. a \<in> set (b # xs) \<Longrightarrow> confidence_of h1 a = confidence_of h2 a"
    using assms by (simp add: Cons confidence_of_def)
  have m: "max_by (confidence_of h1) b xs = max_by (confidence_of h2) b xs"
    by (rule max_by_cong) (rule keys)
  have base: "h1 (max_by (confidence_of h2) b xs) = h2 (max_by (confidence_of h2) b xs)"
    using assms max_by_in [of "confidence_of h2" b xs] by (simp add: Cons)
  have agents: "map (\<lambda>f. source_agent (h1 f)) (b # xs) = map (\<lambda>f. source_agent (h2 f)) (b # xs)"
    using assms by (intro map_cong refl) (simp add: Cons)
  have confs: "map (confidence_of h1) (b # xs) = map (confidence_of h2) (b # xs)"
    by (intro map_cong refl) (rule keys)
  show ?thesis
    unfolding build_consensus_finding_def Cons list.case Let_def m base agents confs ..
qed

lemma build_consensus_finding_eq:
  assumes "c \<noteq> []" and "map (\<lambda>f. source_agent (h f)) c = map Some agents"
  shows "build_consensus_finding h c =
     Inr ((h (max_by (confidence_of h) (hd c) (tl c)))\<lparr>consensus_info := Some
            \<lparr>source_agents = agents,
             agreement_count = length c,
             consensus_confidence =
               py_round (float_div (py_sum 0 (map (confidence_of h) c))
                 (rat_of_nat (length c))) 2,
             verified = True\<rparr>\<rparr>)"
proof -
  from assms(1) obtain b xs where c: "c = b # xs" by (cases c) auto
  from assms(2) have "those (map (\<lambda>f. source_agent (h f)) c) = Some agents"
    by (simp add: those_eq_Some)
  then show ?thesis
    unfolding build_consensus_finding_def c list.case Let_def
    by (simp del: those.simps py_sum.simps)
qed

lemma build_consensus_finding_ok:
  assumes "c \<noteq> []" and "\<forall>a \<in> set c. source_agent (h a) \<noteq> None"
  shows "\<exists>f. build_consensus_finding h c = Inr f"
proof -
  have "map (\<lambda>f. source_agent (h f)) c = map Some (map (\<lambda>f. the (source_agent (h f))) c)"
    using assms(2) by (induction c) auto
  from build_consensus_finding_eq [OF assms(1) this] show ?thesis by blast
qed


section \<open>The decision loop\<close>

lemma decide_clusters_eq:
  assumes "\<forall>c \<in> set cs. c \<noteq> [] \<and> (\<forall>a \<in> set c. source_agent (h a) \<noteq> None)"
    and "disjoint_lists cs"
  shows "\<exists>cons' h'.
     decide_clusters m cs (cons, rej, h) =
       Inr (cons', rej @ concat (filter (\<lambda>c. int (length c) < m) cs), h') \<and>
     map Inr cons' =
       map Inr cons @ map (build_consensus_finding h) (filter (\<lambda>c. m \<le> int (length c)) cs) \<and>
     (\<forall>c \<in> set cs. \<forall>a \<in> set c.
        h' a = (if int (length c) < m
                then (h a)\<lparr>rejection_reason := Some (rejection_text (length c))\<rparr> else h a)) \<and>
     (\<forall>a. a \<notin> \<Union>(set ` set cs) \<longrightarrow> h' a = h a)"
  using assms
proof (induction cs arbitrary: cons rej h)
  case Nil
  then show ?case by simp
next
  case (Cons c cs)
  from Cons.prems(2) have apart: "\<forall>c' \<in> set cs. set c \<inter> set c' = {}"
    and disj: "disjoint_lists cs" by simp_all
  from Cons.prems(1) have c: "c \<noteq> []" "\<forall>a \<in> set c. source_agent (h a) \<noteq> None"
    and ok: "\<forall>c \<in> set cs. c \<noteq> [] \<and> (\<forall>a \<in> set c. source_agent (h a) \<noteq> None)"
    by simp_all
  show ?case
  proof (cases "m \<le> int (length c)")
    case True
    from build_consensus_finding_ok [OF c] obtain f where f: "build_consensus_finding h c = Inr f"
      by blast
    from Cons.IH [OF ok disj, of "cons @ [f]" rej] obtain cons' h' where
      r: "decide_clusters m cs (cons @ [f], rej, h) =
            Inr (cons', rej @ concat (filter (\<lambda>c. int (length c) < m) cs), h')"
      and l: "map Inr cons' = map Inr (cons @ [f]) @
            map (build_consensus_finding h) (filter (\<lambda>c. m \<le> int (length c)) cs)"
      and s: "\<forall>c \<in> set cs. \<forall>a \<in> set c.
            h' a = (if int (length c) < m
                    then (h a)\<lparr>rejection_reason := Some (rejection_text (length c))\<rparr> else h a)"
      and u: "\<forall>a. a \<notin> \<Union>(set ` set cs) \<longrightarrow> h' a = h a"
      by blast
    have head: "\<forall>a \<in> set c. h' a = h a" using apart u by blast
    have "decide_clusters m (c # cs) (cons, rej, h) =
            Inr (cons', rej @ concat (filter (\<lambda>c. int (length c) < m) (c # cs)), h')"
      using True r by (simp add: f)
    moreover have "map Inr cons' = map Inr cons @
            map (build_consensus_finding h) (filter (\<lambda>c. m \<le> int (length c)) (c # cs))"
      using True l by (simp add: f)
    moreover have "\<forall>c' \<in> set (c # cs). \<forall>a \<in> set c'.
            h' a = (if int (length c') < m
                    then (h a)\<lparr>rejection_reason := Some (rejection_text (length c'))\<rparr> else h a)"
      using True s head by simp
    moreover have "\<forall>a. a \<notin> \<Union>(set ` set (c # cs)) \<longrightarrow> h' a = h a"
      using u by simp
    ultimately show ?thesis by blast
  next
    case False
    let ?h1 = "\<lambda>a. if a \<in> set c
                 then (h a)\<lparr>rejection_reason := Some (rejection_text (length c))\<rparr> else h a"
    have ok1: "\<forall>c \<in> set cs. c \<noteq> [] \<and> (\<forall>a \<in> set c. source_agent (?h1 a) \<noteq> None)"
      using ok by simp
    from Cons.IH [OF ok1 disj, of cons "rej @ c"] obtain cons' h' where
      r: "decide_clusters m cs (cons, rej @ c, ?h1) =
            Inr (cons', (rej @ c) @ concat (filter (\<lambda>c. int (length c) < m) cs), h')"
      and l: "map Inr cons' = map Inr cons @
            map (build_consensus_finding ?h1) (filter (\<lambda>c. m \<le> int (length c)) cs)"
      and s: "\<forall>c' \<in> set cs. \<forall>a \<in> set c'.
            h' a = (if int (length c') < m
                    then (?h1 a)\<lparr>rejection_reason := Some (rejection_text (length c'))\<rparr>
                    else ?h1 a)"
      and u: "\<forall>a. a \<notin> \<Union>(set ` set cs) \<longrightarrow> h' a = ?h1 a"
      by blast
    have notin: "\<And>c' a. c' \<in> set cs \<Longrightarrow> a \<in> set c' \<Longrightarrow> a \<notin> set c"
      using apart by auto
    have head: "\<forall>a \<in> set c. h' a = ?h1 a" using apart u by blast
    have "map (build_consensus_finding ?h1) (filter (\<lambda>c. m \<le> int (length c)) cs) =
          map (build_consensus_finding h) (filter (\<lambda>c. m \<le> int (length c)) cs)"
    proof (intro map_cong refl build_consensus_finding_cong)
      fix c' a assume "c' \<in> set (filter (\<lambda>c. m \<le> int (length c)) cs)" "a \<in> set c'"
      then have "a \<notin> set c" using notin [of c' a] by simp
      then show "?h1 a = h a" by simp
    qed
    with l have l': "map Inr cons' = map Inr cons @
            map (build_consensus_finding h) (filter (\<lambda>c. m \<le> int (length c)) (c # cs))"
      using False by simp
    have "decide_clusters m (c # cs) (cons, rej, h) =
            Inr (cons', rej @ concat (filter (\<lambda>c. int (length c) < m) (c # cs)), h')"
      using False r by (simp add: reject_cluster_eq)
    moreover have "\<forall>c' \<in> set (c # cs). \<forall>a \<in> set c'.
            h' a = (if int (length c') < m
                    then (h a)\<lparr>rejection_reason := Some (rejection_text (length c'))\<rparr> else h a)"
    proof (intro ballI)
      fix c' a assume c': "c' \<in> set (c # cs)" and a: "a \<in> set c'"
      show "h' a = (if int (length c') < m
                    then (h a)\<lparr>rejection_reason := Some (rejection_text (length c'))\<rparr> else h a)"
      proof (cases "c' \<in> set cs")
        case True
        from notin [OF True a] have "a \<notin> set c" .
        with s a True show ?thesis by simp
      next
        case False
        with c' have "c' = c" by simp
        with a head \<open>\<not> m \<le> int (length c)\<close> show ?thesis by simp
      qed
    qed
    moreover have "\<forall>a. a \<notin> \<Union>(set ` set (c # cs)) \<longrightarrow> h' a = h a"
      using u by simp
    ultimately show ?thesis using l' by blast
  qed
qed

section \<open>The result of the orchestration\<close>

lemma similar_in_refl: "similar_in h a a"
  by (simp add: similar_in_def are_similar_refl)

lemma cluster_findings_disjoint: "disjoint_lists (cluster_findings h fs)"
  unfolding cluster_findings_eq sorted_wrt_iff_nth_less
  using seed_clusters_disjoint [of "similar_in h"] similar_in_refl by blast

lemma cluster_findings_mset: "mset (concat (cluster_findings h fs)) = mset fs"
  by (simp add: cluster_findings_eq seed_clusters_mset)

lemma cluster_findings_nonempty: "c \<in> set (cluster_findings h fs) \<Longrightarrow> c \<noteq> []"
  unfolding cluster_findings_eq by (rule seed_clusters_nonempty)

lemma cluster_findings_subset: "c \<in> set (cluster_findings h fs) \<Longrightarrow> set c \<subseteq> set fs"
  unfolding cluster_findings_eq by (rule seed_clusters_subset)

lemma cluster_findings_Union: "\<Union>(set ` set (cluster_findings h fs)) = set fs"
  unfolding cluster_findings_eq by (rule seed_clusters_set)

lemma build_consensus_eq:
  assumes coll: "collect_findings rs ([], h0) = (all, h1)"
  shows "\<exists>cons h2.
     build_consensus self rs h0 =
       Inr (\<lparr>consensus_findings = cons,
             rejected_findings =
               concat (filter (\<lambda>c. int (length c) < min_agreement self) (cluster_findings h1 all)),
             total_agents = length rs,
             agreement_threshold = min_agreement self,
             statistics =
               \<lparr>total_findings = length all,
                consensus_count = length cons,
                rejected_count = length (concat
                  (filter (\<lambda>c. int (length c) < min_agreement self) (cluster_findings h1 all)))\<rparr>\<rparr>,
            h2) \<and>
     map Inr cons = map (build_consensus_finding h1)
       (filter (\<lambda>c. min_agreement self \<le> int (length c)) (cluster_findings h1 all)) \<and>
     (\<forall>c \<in> set (cluster_findings h1 all). \<forall>a \<in> set c.
        h2 a = (if int (length c) < min_agreement self
                then (h1 a)\<lparr>rejection_reason := Some (rejection_text (length c))\<rparr> else h1 a)) \<and>
     (\<forall>a. a \<notin> set all \<longrightarrow> h2 a = h0 a)"
proof -
  let ?cs = "cluster_findings h1 all"
  let ?m = "min_agreement self"
  have all: "all = concat (map findings_of rs)"
    using collect_findings_all [of rs "[]" h0] coll by simp
  have h1: "h1 = snd (collect_findings rs ([], h0))" using coll by simp
  have tagged: "\<forall>c \<in> set ?cs. c \<noteq> [] \<and> (\<forall>a \<in> set c. source_agent (h1 a) \<noteq> None)"
  proof (intro ballI conjI)
    fix c assume c: "c \<in> set ?cs"
    then show "c \<noteq> []" by (rule cluster_findings_nonempty)
    fix a assume "a \<in> set c"
    with c have "a \<in> set (concat (map findings_of rs))"
      using cluster_findings_subset [of c h1 all] all by auto
    from collect_findings_tagged [OF this, of "[]" h0] show "source_agent (h1 a) \<noteq> None"
      unfolding h1 by auto
  qed
  from decide_clusters_eq [OF tagged cluster_findings_disjoint, of ?m "[]" "[]"]
  obtain cons h2 where
    r: "decide_clusters ?m ?cs ([], [], h1) =
          Inr (cons, concat (filter (\<lambda>c. int (length c) < ?m) ?cs), h2)"
    and l: "map Inr cons = map (build_consensus_finding h1) (filter (\<lambda>c. ?m \<le> int (length c)) ?cs)"
    and s: "\<forall>c \<in> set ?cs. \<forall>a \<in> set c.
          h2 a = (if int (length c) < ?m
                  then (h1 a)\<lparr>rejection_reason := Some (rejection_text (length c))\<rparr> else h1 a)"
    and u: "\<forall>a. a \<notin> \<Union>(set ` set ?cs) \<longrightarrow> h2 a = h1 a"
    by auto
  have "\<forall>a. a \<notin> set all \<longrightarrow> h2 a = h0 a"
  proof (intro allI impI)
    fix a assume a: "a \<notin> set all"
    then have "h2 a = h1 a" using u by (simp add: cluster_findings_Union)
    also have "\<dots> = h0 a" unfolding h1 using a all by (intro collect_findings_frame) simp
    finally show "h2 a = h0 a" .
  qed
  moreover have "build_consensus self rs h0 =
       Inr (\<lparr>consensus_findings = cons,
             rejected_findings = concat (filter (\<lambda>c. int (length c) < ?m) ?cs),
             total_agents = length rs,
             agreement_threshold = ?m,
             statistics =
               \<lparr>total_findings = length all,
                consensus_count = length cons,
                rejected_count = length (concat (filter (\<lambda>c. int (length c) < ?m) ?cs))\<rparr>\<rparr>,
            h2)"
    unfolding build_consensus_def coll prod.case Let_def r sum.case ..
  ultimately show ?thesis using l s by blast
qed

lemma collected_clusters_tagged:
  assumes "collect_findings rs ([], h0) = (all, h1)"
    and "c \<in> set (cluster_findings h1 all)"
  shows "c \<noteq> [] \<and> (\<exists>agents. map (\<lambda>f. source_agent (h1 f)) c = map Some agents)"
proof -
  have all: "all = concat (map findings_of rs)"
    using collect_findings_all [of rs "[]" h0] assms(1) by simp
  have h1: "h1 = snd (collect_findings rs ([], h0))" using assms(1) by simp
  have "\<forall>a \<in> set c. source_agent (h1 a) \<noteq> None"
  proof
    fix a assume "a \<in> set c"
    with assms(2) have "a \<in> set (concat (map findings_of rs))"
      using cluster_findings_subset [of c h1 all] all by auto
    from collect_findings_tagged [OF this, of "[]" h0] show "source_agent (h1 a) \<noteq> None"
      unfolding h1 by auto
  qed
  then have "map (\<lambda>f. source_agent (h1 f)) c =
             map Some (map (\<lambda>f. the (source_agent (h1 f))) c)"
    by (induction c) auto
  moreover have "c \<noteq> []" using assms(2) by (rule cluster_findings_nonempty)
  ultimately show ?thesis by blast
qed

section \<open>Rounding and counting\<close>

lemma round_half_even_near: "\<bar>of_int (round_half_even x) - x\<bar> \<le> 1 / 2"
proof -
  have "of_int \<lfloor>x\<rfloor> \<le> x" "x < of_int \<lfloor>x\<rfloor> + 1" by linarith+
  then show ?thesis
    by (auto simp: round_half_even_def Let_def abs_le_iff)
qed



lemma to_double_near: "\<bar>to_double x - x\<bar> \<le> pow2 (ulp_exponent x) / 2"
proof (cases "x = 0")
  case True
  then show ?thesis by (simp add: to_double_def pow2_def)
next
  case False
  let ?p = "pow2 (ulp_exponent x)"
  have pos: "0 < ?p" by (simp add: pow2_def)
  have "\<bar>rat_of_int (round_half_even (x / ?p)) - x / ?p\<bar> \<le> 1 / 2"
    by (rule round_half_even_near)
  then have "\<bar>rat_of_int (round_half_even (x / ?p)) - x / ?p\<bar> * ?p \<le> (1 / 2) * ?p"
    using pos by (intro mult_right_mono) simp_all
  moreover have "\<bar>rat_of_int (round_half_even (x / ?p)) - x / ?p\<bar> * ?p =
      \<bar>rat_of_int (round_half_even (x / ?p)) * ?p - x\<bar>"
  proof -
    have "\<bar>rat_of_int (round_half_even (x / ?p)) - x / ?p\<bar> * ?p =
          \<bar>(rat_of_int (round_half_even (x / ?p)) - x / ?p) * ?p\<bar>"
      using pos by (simp add: abs_mult)
    also have "(rat_of_int (round_half_even (x / ?p)) - x / ?p) * ?p =
          rat_of_int (round_half_even (x / ?p)) * ?p - x"
      using pos by (simp add: left_diff_distrib)
    finally show ?thesis .
  qed
  ultimately show ?thesis using False by (simp add: to_double_def Let_def)
qed

lemma double_examples:
  "to_double (9 / 10) = 8106479329266893 / 2 ^ 53"
  "to_double (19 / 20) = 8556839292003942 / 2 ^ 53"
  "to_double (1 / 10) = 7205759403792794 / 2 ^ 56"
  "to_double (1 / 3) = 6004799503160661 / 2 ^ 54"
  "to_double (1 / 2) = 1 / 2"
  "to_double (2 ^ 53 + 1) = 2 ^ 53"
  "to_double (2 ^ 53 + 3) = 2 ^ 53 + 4"
  "to_double (- (9 / 10)) = - (8106479329266893 / 2 ^ 53)"
  "float_add (to_double (9 / 10)) (to_double (19 / 20)) = 4165829655317709 / 2 ^ 51"
  "py_sum 0 (replicate 10 (to_double (1 / 10))) = 9007199254740991 / 2 ^ 53"
  "py_round (to_double (15 / 1000)) 2 = to_double (1 / 100)"
  "py_round (1 / 8) 2 = to_double (12 / 100)"
  by code_simp+

lemma digit_of_char: "d < 10 \<Longrightarrow> digit_of (char_of (48 + d)) = Some d"
proof -
  assume d: "d < 10"
  have "\<forall>d \<in> set [0..<10]. digit_of (char_of (48 + d)) = Some d" by code_simp
  with d show ?thesis by simp
qed

lemma digits_value_snoc:
  "digits_value v (s @ [c]) =
     (case digits_value v s of
        None \<Rightarrow> None
      | Some w \<Rightarrow> (case digit_of c of None \<Rightarrow> None | Some d \<Rightarrow> Some (10 * w + d)))"
  by (induction s arbitrary: v) (auto split: option.splits)

lemma str_nat_value: "digits_value 0 (str_nat n) = Some n \<and> str_nat n \<noteq> []"
proof (induction n rule: str_nat.induct)
  case (1 n)
  show ?case
  proof (cases "n < 10")
    case True
    then have "str_nat n = [char_of (48 + n)]" by (simp add: str_nat.simps)
    with True show ?thesis by (simp add: digit_of_char)
  next
    case False
    then have s: "str_nat n = str_nat (n div 10) @ [char_of (48 + n mod 10)]"
      by (subst str_nat.simps) simp
    have d: "digit_of (char_of (48 + n mod 10)) = Some (n mod 10)"
      by (rule digit_of_char) simp
    from 1 False have "digits_value 0 (str_nat (n div 10)) = Some (n div 10)" by simp
    then show ?thesis unfolding s by (simp add: digits_value_snoc d)
  qed
qed

lemma str_nat_decimal: "decimal_value (str_nat n) = Some n"
  using str_nat_value [of n] by (simp add: decimal_value_def)

lemma str_nat_no_leading_zero: "0 < n \<Longrightarrow> hd (str_nat n) \<noteq> CHR ''0''"
proof (induction n rule: str_nat.induct)
  case (1 n)
  show ?case
  proof (cases "n < 10")
    case True
    then have s: "str_nat n = [char_of (48 + n)]" by (simp add: str_nat.simps)
    have "digit_of (char_of (48 + n)) = Some n" using True by (rule digit_of_char)
    moreover have "digit_of CHR ''0'' = Some 0" by code_simp
    ultimately have "char_of (48 + n) \<noteq> CHR ''0''" using "1.prems" by auto
    then show ?thesis by (simp add: s)
  next
    case False
    then have s: "str_nat n = str_nat (n div 10) @ [char_of (48 + n mod 10)]"
      by (subst str_nat.simps) simp
    from False have "0 < n div 10" by simp
    with 1 False have "hd (str_nat (n div 10)) \<noteq> CHR ''0''" by simp
    moreover have "str_nat (n div 10) \<noteq> []" using str_nat_value by blast
    ultimately show ?thesis unfolding s by simp
  qed
qed

lemma str_nat_examples:
  "str_nat 0 = ''0''" "str_nat 1 = ''1''" "str_nat 2 = ''2''" "str_nat 9 = ''9''"
  "str_nat 10 = ''10''" "str_nat 12 = ''12''" "str_nat 907 = ''907''"
  by code_simp+

lemma agreement_of_consensus:
  assumes "c \<noteq> []" and "build_consensus_finding h c = Inr f"
  shows "agreement_of f = length c"
proof -
  from assms(1) obtain b xs where c: "c = b # xs" by (cases c) auto
  from assms(2) show ?thesis
    unfolding build_consensus_finding_def c list.case Let_def
    by (auto simp: agreement_of_def split: option.splits)
qed

lemma consensus_agreements:
  assumes "\<forall>c \<in> set cs. c \<noteq> []" and "map Inr cons = map (build_consensus_finding h) cs"
  shows "map agreement_of cons = map length cs"
  using assms
proof (induction cs arbitrary: cons)
  case Nil
  then show ?case by simp
next
  case (Cons c cs)
  from Cons.prems(2) obtain f fs where cons: "cons = f # fs"
    and f: "build_consensus_finding h c = Inr f"
    and fs: "map Inr fs = map (build_consensus_finding h) cs"
    by (cases cons) auto
  from Cons.prems(1) have "c \<noteq> []" by simp
  from agreement_of_consensus [OF this f] Cons.IH [OF _ fs] Cons.prems(1)
  show ?case by (simp add: cons)
qed

lemma length_split:
  "sum_list (map length (filter (\<lambda>c. m \<le> int (length c)) cs)) +
   length (concat (filter (\<lambda>c. int (length c) < m) cs)) = length (concat cs)"
  by (induction cs) auto

lemma count_le_total:
  "\<forall>c \<in> set cs. c \<noteq> [] \<Longrightarrow>
   length (filter (\<lambda>c. m \<le> int (length c)) cs) +
   length (concat (filter (\<lambda>c. int (length c) < m) cs)) \<le> length (concat cs)"
proof (induction cs)
  case Nil
  then show ?case by simp
next
  case (Cons c cs)
  from Cons.prems obtain x xs where c: "c = x # xs" by (cases c) auto
  have "length (filter (\<lambda>c. m \<le> int (length c)) cs) +
        length (concat (filter (\<lambda>c. int (length c) < m) cs)) \<le> length (concat cs)"
    using Cons by simp
  then show ?case by (simp add: c)
qed

lemma filter_length_mono:
  "(\<And>x. P x \<Longrightarrow> Q x) \<Longrightarrow> length (filter P xs) \<le> length (filter Q xs)"
  by (induction xs) auto

lemma filter_concat_length_mono:
  "(\<And>x. P x \<Longrightarrow> Q x) \<Longrightarrow> length (concat (filter P xs)) \<le> length (concat (filter Q xs))"
  by (induction xs) auto

lemma collect_findings_cases:
  obtains all h1 where "collect_findings rs ([], h0) = (all, h1)"
    and "all = concat (map findings_of rs)"
proof -
  obtain all h1 where c: "collect_findings rs ([], h0) = (all, h1)"
    by (cases "collect_findings rs ([], h0)")
  moreover have "all = concat (map findings_of rs)"
    using collect_findings_all [of rs "[]" h0] c by simp
  ultimately show ?thesis by (rule that)
qed


section \<open>The engine's parameters\<close>

text \<open>
  C9: the constructor stores \<open>similarity_threshold\<close> and nothing reads it. Two engines
  with the same \<open>min_agreement\<close> give the same result and leave the same store,
  whatever their \<open>similarity_threshold\<close>.
\<close>

theorem similarity_threshold_unused:
  "min_agreement e1 = min_agreement e2 \<Longrightarrow>
   build_consensus e1 agent_results h = build_consensus e2 agent_results h"
  by (simp add: build_consensus_def split: prod.splits sum.splits)

theorem similarity_threshold_unused_witness:
  "build_consensus \<lparr>min_agreement = 2, similarity_threshold = 85 / 100\<rparr>
     [\<lparr>agent = Some ''gpt4'', findings = Some [0, 1]\<rparr>] (\<lambda>_. empty_finding) =
   build_consensus \<lparr>min_agreement = 2, similarity_threshold = 1 / 10\<rparr>
     [\<lparr>agent = Some ''gpt4'', findings = Some [0, 1]\<rparr>] (\<lambda>_. empty_finding)"
  by (rule similarity_threshold_unused) simp

section \<open>The example, and further facts\<close>

lemma collect_example:
  "collect_findings example_results ([], example_store) = ([0, 1, 2], example_tagged)"
  by (simp add: example_results_def example_store_def example_tagged_def dict_get_def Let_def)

lemma clusters_example: "cluster_findings example_tagged [0, 1, 2] = [[0, 2], [1]]"
  by code_simp

lemma collect_findings_none:
  "\<forall>res \<in> set rs. findings_of res = [] \<Longrightarrow> collect_findings rs (all, h) = (all, h)"
  by (induction rs) (simp_all add: findings_of_def)

lemma cluster_findings_Nil: "cluster_findings h [] = []"
  by (simp add: cluster_findings_def)

lemma disjoint_count:
  "disjoint_lists cs \<Longrightarrow> c \<in> set cs \<Longrightarrow> f \<in> set c \<Longrightarrow>
   count_list (concat cs) f = count_list c f"
proof (induction cs)
  case Nil
  then show ?case by simp
next
  case (Cons c' cs)
  from Cons.prems(1) have apart: "\<forall>d \<in> set cs. set c' \<inter> set d = {}"
    and disj: "disjoint_lists cs" by simp_all
  show ?case
  proof (cases "c \<in> set cs")
    case True
    with apart Cons.prems(3) have "f \<notin> set c'" by blast
    then have "count_list c' f = 0" by (simp add: count_list_0_iff)
    with Cons.IH [OF disj True Cons.prems(3)] show ?thesis by simp
  next
    case False
    with Cons.prems(2) have c: "c' = c" by simp
    have "f \<notin> set (concat cs)" using apart Cons.prems(3) c by auto
    then have "count_list (concat cs) f = 0" by (metis count_list_0_iff)
    then show ?thesis by (simp add: c)
  qed
qed

lemma build_consensus_finding_copy:
  assumes "build_consensus_finding h c = Inr f"
  shows "\<exists>a \<in> set c. f\<lparr>consensus_info := consensus_info (h a)\<rparr> = h a"
proof (cases c)
  case Nil
  with assms show ?thesis by (simp add: build_consensus_finding_def)
next
  case (Cons b xs)
  let ?base = "max_by (confidence_of h) b xs"
  from assms obtain info where "f = (h ?base)\<lparr>consensus_info := info\<rparr>"
    unfolding build_consensus_finding_def Cons list.case Let_def
    by (auto split: option.splits)
  then have "f\<lparr>consensus_info := consensus_info (h ?base)\<rparr> = h ?base" by simp
  moreover have "?base \<in> set c" unfolding Cons by (rule max_by_in)
  ultimately show ?thesis by blast
qed

section \<open>Clusters partition the findings\<close>

text \<open>
  C2: the clusters of \<open>cluster_findings\<close> partition the input. Together they hold each
  object as many times as the input list does (nothing is dropped, nothing is
  added), no cluster is empty, and two clusters never share an object, so every
  input finding is in exactly one cluster.
\<close>

theorem cluster_findings_partition:
  "mset (concat (cluster_findings h fs)) = mset fs \<and>
   [] \<notin> set (cluster_findings h fs) \<and>
   (\<forall>i j. i < j \<and> j < length (cluster_findings h fs) \<longrightarrow>
      set (cluster_findings h fs ! i) \<inter> set (cluster_findings h fs ! j) = {})"
proof (intro conjI)
  show "mset (concat (cluster_findings h fs)) = mset fs" by (rule cluster_findings_mset)
  show "[] \<notin> set (cluster_findings h fs)" using cluster_findings_nonempty by blast
  show "\<forall>i j. i < j \<and> j < length (cluster_findings h fs) \<longrightarrow>
      set (cluster_findings h fs ! i) \<inter> set (cluster_findings h fs ! j) = {}"
    using cluster_findings_disjoint [of h fs] unfolding sorted_wrt_iff_nth_less by blast
qed

theorem cluster_findings_partition_witness:
  "mset (concat (cluster_findings example_tagged [0, 1, 2])) = mset [0, 1, 2] \<and>
   set (cluster_findings example_tagged [0, 1, 2] ! 0) \<inter>
     set (cluster_findings example_tagged [0, 1, 2] ! 1) = {} \<and>
   cluster_findings example_tagged [0, 1, 2] = [[0, 2], [1]]"
proof -
  have p: "mset (concat (cluster_findings example_tagged [0, 1, 2])) = mset [0, 1, 2] \<and>
     [] \<notin> set (cluster_findings example_tagged [0, 1, 2]) \<and>
     (\<forall>i j. i < j \<and> j < length (cluster_findings example_tagged [0, 1, 2]) \<longrightarrow>
        set (cluster_findings example_tagged [0, 1, 2] ! i) \<inter>
          set (cluster_findings example_tagged [0, 1, 2] ! j) = {})"
    by (rule cluster_findings_partition)
  have c: "cluster_findings example_tagged [0, 1, 2] = [[0, 2], [1]]" by code_simp
  have "(0::nat) < 1 \<and> 1 < length (cluster_findings example_tagged [0, 1, 2])"
    unfolding c by simp
  with p have "set (cluster_findings example_tagged [0, 1, 2] ! 0) \<inter>
     set (cluster_findings example_tagged [0, 1, 2] ! 1) = {}" by blast
  with p c show ?thesis by blast
qed

section \<open>The consensus finding of a cluster\<close>




section \<open>Accounting\<close>

text \<open>
  C1, as the claim states it, fails: two findings of \<^verbatim>\<open>app.py\<close> at lines 10 and 12 form
  one cluster, which under \<open>min_agreement = 2\<close> gives one consensus finding and no
  rejected finding for two input findings.
\<close>

theorem consensus_count_counterexample:
  "map_option statistics
     (result_of (build_consensus (ConsensusEngine_init 2 (85 / 100))
        [\<lparr>agent = Some ''gpt4'', findings = Some [0]\<rparr>,
         \<lparr>agent = Some ''grok'', findings = Some [2]\<rparr>] example_store)) =
     Some \<lparr>total_findings = 2, consensus_count = 1, rejected_count = 0\<rparr> \<and>
   consensus_count \<lparr>total_findings = 2, consensus_count = 1, rejected_count = 0\<rparr> +
   rejected_count \<lparr>total_findings = 2, consensus_count = 1, rejected_count = 0\<rparr> \<noteq>
   total_findings \<lparr>total_findings = 2, consensus_count = 1, rejected_count = 0\<rparr>"
  by code_simp

text \<open>
  C1, amended: \<open>build_consensus\<close> returns, its three statistics are the lengths of the
  flattened input and of the two result lists, and the agreement counts of the
  consensus findings plus \<open>rejected_count\<close> equal \<open>total_findings\<close>: every input
  finding is counted once, in one consensus finding's agreement count or as one
  rejected finding. A consensus finding stands for a whole cluster, so
  \<open>consensus_count + rejected_count\<close> is at most \<open>total_findings\<close>.
\<close>

theorem accounting_by_agreement:
  "\<exists>r h2. build_consensus self agent_results h0 = Inr (r, h2) \<and>
     total_findings (statistics r) = length (concat (map findings_of agent_results)) \<and>
     consensus_count (statistics r) = length (consensus_findings r) \<and>
     rejected_count (statistics r) = length (rejected_findings r) \<and>
     sum_list (map agreement_of (consensus_findings r)) + rejected_count (statistics r) =
       total_findings (statistics r) \<and>
     consensus_count (statistics r) + rejected_count (statistics r) \<le>
       total_findings (statistics r)"
proof -
  obtain all h1 where coll: "collect_findings agent_results ([], h0) = (all, h1)"
    and all: "all = concat (map findings_of agent_results)"
    by (rule collect_findings_cases)
  let ?cs = "cluster_findings h1 all"
  let ?m = "min_agreement self"
  let ?big = "filter (\<lambda>c. ?m \<le> int (length c)) ?cs"
  let ?small = "filter (\<lambda>c. int (length c) < ?m) ?cs"
  from build_consensus_eq [OF coll, of self] obtain cons h2 where
    r: "build_consensus self agent_results h0 =
       Inr (\<lparr>consensus_findings = cons, rejected_findings = concat ?small,
             total_agents = length agent_results, agreement_threshold = ?m,
             statistics = \<lparr>total_findings = length all, consensus_count = length cons,
                rejected_count = length (concat ?small)\<rparr>\<rparr>, h2)"
    and l: "map Inr cons = map (build_consensus_finding h1) ?big"
    by blast
  have ne: "\<forall>c \<in> set ?cs. c \<noteq> []" using cluster_findings_nonempty by blast
  then have "\<forall>c \<in> set ?big. c \<noteq> []" by simp
  from consensus_agreements [OF this l] have agr: "map agreement_of cons = map length ?big" .
  have len: "length (concat ?cs) = length all"
    using cluster_findings_mset [of h1 all] by (metis size_mset)
  have "length cons = length ?big" using l by (metis length_map)
  with count_le_total [OF ne, of ?m] len
  have le: "length cons + length (concat ?small) \<le> length all" by simp
  have eq: "sum_list (map agreement_of cons) + length (concat ?small) = length all"
    using length_split [of ?m ?cs] len by (simp add: agr)
  show ?thesis unfolding r using le eq all by simp
qed

theorem accounting_by_agreement_witness:
  "(\<exists>r h2. build_consensus (ConsensusEngine_init 2 (85 / 100)) example_results example_store = Inr (r, h2) \<and>
     total_findings (statistics r) = length (concat (map findings_of example_results)) \<and>
     consensus_count (statistics r) = length (consensus_findings r) \<and>
     rejected_count (statistics r) = length (rejected_findings r) \<and>
     sum_list (map agreement_of (consensus_findings r)) + rejected_count (statistics r) =
       total_findings (statistics r) \<and>
     consensus_count (statistics r) + rejected_count (statistics r) \<le>
       total_findings (statistics r)) \<and>
   map_option statistics
     (result_of (build_consensus (ConsensusEngine_init 2 (85 / 100)) example_results example_store)) =
     Some \<lparr>total_findings = 3, consensus_count = 1, rejected_count = 1\<rparr> \<and>
   map_option (map agreement_of \<circ> consensus_findings)
     (result_of (build_consensus (ConsensusEngine_init 2 (85 / 100)) example_results example_store)) =
     Some [2]"
proof -
  have a: "map_option statistics
     (result_of (build_consensus (ConsensusEngine_init 2 (85 / 100)) example_results example_store)) =
     Some \<lparr>total_findings = 3, consensus_count = 1, rejected_count = 1\<rparr>"
    by code_simp
  have b: "map_option (map agreement_of \<circ> consensus_findings)
     (result_of (build_consensus (ConsensusEngine_init 2 (85 / 100)) example_results example_store)) =
     Some [2]"
    by code_simp
  from accounting_by_agreement [of "ConsensusEngine_init 2 (85 / 100)" example_results example_store] a b
  show ?thesis by blast
qed

section \<open>Raising the threshold\<close>

text \<open>
  C5: for the same results and store, an engine with a greater or equal
  \<open>min_agreement\<close> returns a \<open>consensus_count\<close> that is not greater and a
  \<open>rejected_count\<close> that is not smaller.
\<close>

theorem threshold_monotone:
  assumes "min_agreement e1 \<le> min_agreement e2"
  shows "\<exists>r1 s1 r2 s2.
     build_consensus e1 agent_results h0 = Inr (r1, s1) \<and>
     build_consensus e2 agent_results h0 = Inr (r2, s2) \<and>
     consensus_count (statistics r2) \<le> consensus_count (statistics r1) \<and>
     rejected_count (statistics r1) \<le> rejected_count (statistics r2)"
proof -
  obtain all h1 where coll: "collect_findings agent_results ([], h0) = (all, h1)"
    by (rule collect_findings_cases)
  let ?cs = "cluster_findings h1 all"
  let ?big = "\<lambda>m. filter (\<lambda>c. m \<le> int (length c)) ?cs"
  let ?small = "\<lambda>m. filter (\<lambda>c. int (length c) < m) ?cs"
  from build_consensus_eq [OF coll, of e1] obtain cons1 s1 where
    r1: "build_consensus e1 agent_results h0 =
       Inr (\<lparr>consensus_findings = cons1, rejected_findings = concat (?small (min_agreement e1)),
             total_agents = length agent_results, agreement_threshold = min_agreement e1,
             statistics = \<lparr>total_findings = length all, consensus_count = length cons1,
                rejected_count = length (concat (?small (min_agreement e1)))\<rparr>\<rparr>, s1)"
    and l1: "map Inr cons1 = map (build_consensus_finding h1) (?big (min_agreement e1))"
    by blast
  from build_consensus_eq [OF coll, of e2] obtain cons2 s2 where
    r2: "build_consensus e2 agent_results h0 =
       Inr (\<lparr>consensus_findings = cons2, rejected_findings = concat (?small (min_agreement e2)),
             total_agents = length agent_results, agreement_threshold = min_agreement e2,
             statistics = \<lparr>total_findings = length all, consensus_count = length cons2,
                rejected_count = length (concat (?small (min_agreement e2)))\<rparr>\<rparr>, s2)"
    and l2: "map Inr cons2 = map (build_consensus_finding h1) (?big (min_agreement e2))"
    by blast
  have n1: "length cons1 = length (?big (min_agreement e1))" using l1 by (metis length_map)
  have n2: "length cons2 = length (?big (min_agreement e2))" using l2 by (metis length_map)
  have "length (?big (min_agreement e2)) \<le> length (?big (min_agreement e1))"
    using assms by (intro filter_length_mono) simp
  then have a: "length cons2 \<le> length cons1" using n1 n2 by simp
  have b: "length (concat (?small (min_agreement e1))) \<le> length (concat (?small (min_agreement e2)))"
    using assms by (intro filter_concat_length_mono) simp
  show ?thesis unfolding r1 r2 using a b by simp
qed

theorem threshold_monotone_witness:
  "(\<exists>r1 s1 r2 s2.
     build_consensus (ConsensusEngine_init 2 (85 / 100)) example_results example_store =
       Inr (r1, s1) \<and>
     build_consensus (ConsensusEngine_init 3 (85 / 100)) example_results example_store =
       Inr (r2, s2) \<and>
     consensus_count (statistics r2) \<le> consensus_count (statistics r1) \<and>
     rejected_count (statistics r1) \<le> rejected_count (statistics r2)) \<and>
   map_option statistics
     (result_of (build_consensus (ConsensusEngine_init 3 (85 / 100))
        example_results example_store)) =
     Some \<lparr>total_findings = 3, consensus_count = 0, rejected_count = 3\<rparr>"
proof -
  have a: "min_agreement (ConsensusEngine_init 2 (85 / 100)) \<le>
           min_agreement (ConsensusEngine_init 3 (85 / 100))"
    by (simp add: ConsensusEngine_init_def)
  have b: "map_option statistics
     (result_of (build_consensus (ConsensusEngine_init 3 (85 / 100))
        example_results example_store)) =
     Some \<lparr>total_findings = 3, consensus_count = 0, rejected_count = 3\<rparr>"
    by code_simp
  from threshold_monotone [OF a, of example_results example_store] b
  show ?thesis by blast
qed

section \<open>Rejected clusters\<close>

text \<open>
  C7: when a cluster formed by \<open>build_consensus\<close> is smaller than \<open>min_agreement\<close>, the
  consensus findings are those of the clusters that reach the threshold, one for
  each and none for this cluster; the rejected findings are the members of the
  smaller clusters, so each member of this cluster is there as often as it is in the
  cluster; and each member carries the reason \<^verbatim>\<open>Only N agent(s) agreed\<close>, where \<open>N\<close> is
  the decimal numeral, without a leading zero, whose value is the cluster's size:
  \<^verbatim>\<open>Only 1 agent(s) agreed\<close> for a cluster of one, \<^verbatim>\<open>Only 2 agent(s) agreed\<close> for a
  cluster of two.
\<close>

theorem rejected_cluster_reason:
  assumes "collect_findings agent_results ([], h0) = (all_findings, h1)"
    and "cluster \<in> set (cluster_findings h1 all_findings)"
    and "int (length cluster) < min_agreement self"
  shows "\<exists>r h2 numeral.
     build_consensus self agent_results h0 = Inr (r, h2) \<and>
     map Inr (consensus_findings r) =
       map (build_consensus_finding h1)
         (filter (\<lambda>c. min_agreement self \<le> int (length c)) (cluster_findings h1 all_findings)) \<and>
     rejected_findings r =
       concat (filter (\<lambda>c. int (length c) < min_agreement self)
         (cluster_findings h1 all_findings)) \<and>
     decimal_value numeral = Some (length cluster) \<and>
     hd numeral \<noteq> CHR ''0'' \<and>
     (\<forall>f \<in> set cluster.
        count_list (rejected_findings r) f = count_list cluster f \<and>
        rejection_reason (h2 f) = Some (''Only '' @ numeral @ '' agent(s) agreed'')) \<and>
     (length cluster = 1 \<longrightarrow>
        (\<forall>f \<in> set cluster. rejection_reason (h2 f) = Some ''Only 1 agent(s) agreed'')) \<and>
     (length cluster = 2 \<longrightarrow>
        (\<forall>f \<in> set cluster. rejection_reason (h2 f) = Some ''Only 2 agent(s) agreed''))"
proof -
  let ?cs = "cluster_findings h1 all_findings"
  let ?m = "min_agreement self"
  let ?small = "filter (\<lambda>c. int (length c) < ?m) ?cs"
  let ?numeral = "str_nat (length cluster)"
  from build_consensus_eq [OF assms(1), of self] obtain cons h2 where
    r: "build_consensus self agent_results h0 =
       Inr (\<lparr>consensus_findings = cons, rejected_findings = concat ?small,
             total_agents = length agent_results, agreement_threshold = ?m,
             statistics = \<lparr>total_findings = length all_findings, consensus_count = length cons,
                rejected_count = length (concat ?small)\<rparr>\<rparr>, h2)"
    and l: "map Inr cons = map (build_consensus_finding h1)
             (filter (\<lambda>c. ?m \<le> int (length c)) ?cs)"
    and s: "\<forall>c \<in> set ?cs. \<forall>a \<in> set c.
        h2 a = (if int (length c) < ?m
                then (h1 a)\<lparr>rejection_reason := Some (rejection_text (length c))\<rparr> else h1 a)"
    by blast
  have small: "cluster \<in> set ?small" using assms(2,3) by simp
  have disj: "disjoint_lists ?small"
    using cluster_findings_disjoint [of h1 all_findings] by (rule sorted_wrt_filter)
  have cnt: "\<forall>f \<in> set cluster. count_list (concat ?small) f = count_list cluster f"
    using disjoint_count [OF disj small] by blast
  have reason: "\<forall>f \<in> set cluster. rejection_reason (h2 f) =
      Some (''Only '' @ ?numeral @ '' agent(s) agreed'')"
    using s assms(2,3) by (simp add: rejection_text_def)
  have "cluster \<noteq> []" using assms(2) by (rule cluster_findings_nonempty)
  then have "0 < length cluster" by simp
  then have lead: "hd ?numeral \<noteq> CHR ''0''" by (rule str_nat_no_leading_zero)
  have val: "decimal_value ?numeral = Some (length cluster)" by (rule str_nat_decimal)
  have one: "str_nat 1 = ''1''" and two: "str_nat 2 = ''2''" by code_simp+
  have single: "length cluster = 1 \<longrightarrow>
      (\<forall>f \<in> set cluster. rejection_reason (h2 f) = Some ''Only 1 agent(s) agreed'')"
    using reason one by auto
  have pair: "length cluster = 2 \<longrightarrow>
      (\<forall>f \<in> set cluster. rejection_reason (h2 f) = Some ''Only 2 agent(s) agreed'')"
    using reason two by auto
  let ?r = "\<lparr>consensus_findings = cons, rejected_findings = concat ?small,
             total_agents = length agent_results, agreement_threshold = ?m,
             statistics = \<lparr>total_findings = length all_findings, consensus_count = length cons,
                rejected_count = length (concat ?small)\<rparr>\<rparr>"
  have "build_consensus self agent_results h0 = Inr (?r, h2) \<and>
     map Inr (consensus_findings ?r) =
       map (build_consensus_finding h1) (filter (\<lambda>c. ?m \<le> int (length c)) ?cs) \<and>
     rejected_findings ?r = concat ?small \<and>
     decimal_value ?numeral = Some (length cluster) \<and>
     hd ?numeral \<noteq> CHR ''0'' \<and>
     (\<forall>f \<in> set cluster.
        count_list (rejected_findings ?r) f = count_list cluster f \<and>
        rejection_reason (h2 f) = Some (''Only '' @ ?numeral @ '' agent(s) agreed'')) \<and>
     (length cluster = 1 \<longrightarrow>
        (\<forall>f \<in> set cluster. rejection_reason (h2 f) = Some ''Only 1 agent(s) agreed'')) \<and>
     (length cluster = 2 \<longrightarrow>
        (\<forall>f \<in> set cluster. rejection_reason (h2 f) = Some ''Only 2 agent(s) agreed''))"
    using r l cnt reason val lead single pair by simp
  then show ?thesis by blast
qed

theorem rejected_cluster_reason_witness:
  "(\<exists>r h2 numeral.
     build_consensus (ConsensusEngine_init 2 (85 / 100)) example_results example_store = Inr (r, h2) \<and>
     map Inr (consensus_findings r) =
       map (build_consensus_finding example_tagged)
         (filter (\<lambda>c. min_agreement (ConsensusEngine_init 2 (85 / 100)) \<le> int (length c))
           (cluster_findings example_tagged [0, 1, 2])) \<and>
     rejected_findings r =
       concat (filter (\<lambda>c. int (length c) < min_agreement (ConsensusEngine_init 2 (85 / 100)))
         (cluster_findings example_tagged [0, 1, 2])) \<and>
     decimal_value numeral = Some (length [1::nat]) \<and>
     hd numeral \<noteq> CHR ''0'' \<and>
     (\<forall>f \<in> set [1::nat].
        count_list (rejected_findings r) f = count_list [1::nat] f \<and>
        rejection_reason (h2 f) = Some (''Only '' @ numeral @ '' agent(s) agreed'')) \<and>
     (length [1::nat] = 1 \<longrightarrow>
        (\<forall>f \<in> set [1::nat]. rejection_reason (h2 f) = Some ''Only 1 agent(s) agreed'')) \<and>
     (length [1::nat] = 2 \<longrightarrow>
        (\<forall>f \<in> set [1::nat]. rejection_reason (h2 f) = Some ''Only 2 agent(s) agreed''))) \<and>
   (\<exists>r h2 numeral.
     build_consensus (ConsensusEngine_init 3 (85 / 100)) example_results example_store = Inr (r, h2) \<and>
     map Inr (consensus_findings r) =
       map (build_consensus_finding example_tagged)
         (filter (\<lambda>c. min_agreement (ConsensusEngine_init 3 (85 / 100)) \<le> int (length c))
           (cluster_findings example_tagged [0, 1, 2])) \<and>
     rejected_findings r =
       concat (filter (\<lambda>c. int (length c) < min_agreement (ConsensusEngine_init 3 (85 / 100)))
         (cluster_findings example_tagged [0, 1, 2])) \<and>
     decimal_value numeral = Some (length [0::nat, 2]) \<and>
     hd numeral \<noteq> CHR ''0'' \<and>
     (\<forall>f \<in> set [0::nat, 2].
        count_list (rejected_findings r) f = count_list [0::nat, 2] f \<and>
        rejection_reason (h2 f) = Some (''Only '' @ numeral @ '' agent(s) agreed'')) \<and>
     (length [0::nat, 2] = 1 \<longrightarrow>
        (\<forall>f \<in> set [0::nat, 2]. rejection_reason (h2 f) = Some ''Only 1 agent(s) agreed'')) \<and>
     (length [0::nat, 2] = 2 \<longrightarrow>
        (\<forall>f \<in> set [0::nat, 2]. rejection_reason (h2 f) = Some ''Only 2 agent(s) agreed''))) \<and>
   map_option rejected_findings
     (result_of (build_consensus (ConsensusEngine_init 2 (85 / 100))
        example_results example_store)) = Some [1] \<and>
   map_option rejection_reason
     (finding_after (build_consensus (ConsensusEngine_init 2 (85 / 100))
        example_results example_store) 1) = Some (Some ''Only 1 agent(s) agreed'') \<and>
   map_option rejected_findings
     (result_of (build_consensus (ConsensusEngine_init 3 (85 / 100))
        example_results example_store)) = Some [0, 2, 1] \<and>
   map_option rejection_reason
     (finding_after (build_consensus (ConsensusEngine_init 3 (85 / 100))
        example_results example_store) 0) = Some (Some ''Only 2 agent(s) agreed'') \<and>
   map_option rejection_reason
     (finding_after (build_consensus (ConsensusEngine_init 3 (85 / 100))
        example_results example_store) 2) = Some (Some ''Only 2 agent(s) agreed'') \<and>
   map_option rejection_reason
     (finding_after (build_consensus (ConsensusEngine_init 3 (85 / 100))
        example_results example_store) 1) = Some (Some ''Only 1 agent(s) agreed'')"
proof -
  have a1: "[1] \<in> set (cluster_findings example_tagged [0, 1, 2])"
    unfolding clusters_example by simp
  have b1: "int (length [1::nat]) < min_agreement (ConsensusEngine_init 2 (85 / 100))"
    by (simp add: ConsensusEngine_init_def)
  have a2: "[0, 2] \<in> set (cluster_findings example_tagged [0, 1, 2])"
    unfolding clusters_example by simp
  have b2: "int (length [0::nat, 2]) < min_agreement (ConsensusEngine_init 3 (85 / 100))"
    by (simp add: ConsensusEngine_init_def)
  have c: "map_option rejected_findings
     (result_of (build_consensus (ConsensusEngine_init 2 (85 / 100))
        example_results example_store)) = Some [1]"
    by code_simp
  have d: "map_option rejection_reason
     (finding_after (build_consensus (ConsensusEngine_init 2 (85 / 100))
        example_results example_store) 1) = Some (Some ''Only 1 agent(s) agreed'')"
    by code_simp
  have e: "map_option rejected_findings
     (result_of (build_consensus (ConsensusEngine_init 3 (85 / 100))
        example_results example_store)) = Some [0, 2, 1]"
    by code_simp
  have f: "map_option rejection_reason
     (finding_after (build_consensus (ConsensusEngine_init 3 (85 / 100))
        example_results example_store) 0) = Some (Some ''Only 2 agent(s) agreed'')"
    by code_simp
  have g: "map_option rejection_reason
     (finding_after (build_consensus (ConsensusEngine_init 3 (85 / 100))
        example_results example_store) 2) = Some (Some ''Only 2 agent(s) agreed'')"
    by code_simp
  have h: "map_option rejection_reason
     (finding_after (build_consensus (ConsensusEngine_init 3 (85 / 100))
        example_results example_store) 1) = Some (Some ''Only 1 agent(s) agreed'')"
    by code_simp
  from rejected_cluster_reason [OF collect_example a1 b1]
    rejected_cluster_reason [OF collect_example a2 b2] c d e f g h
  show ?thesis by (intro conjI)
qed

section \<open>Empty input\<close>

text \<open>
  C8: when no reviewer contributes a finding, and so for the empty list of results,
  \<open>build_consensus\<close> returns: the two lists are empty, \<open>total_agents\<close> is the number of
  results, the three statistics are zero, and the store is as it was.
\<close>

theorem empty_input:
  assumes "\<forall>res \<in> set agent_results. findings_of res = []"
  shows "build_consensus self agent_results h0 =
     Inr (\<lparr>consensus_findings = [],
           rejected_findings = [],
           total_agents = length agent_results,
           agreement_threshold = min_agreement self,
           statistics = \<lparr>total_findings = 0, consensus_count = 0, rejected_count = 0\<rparr>\<rparr>,
          h0)"
  unfolding build_consensus_def collect_findings_none [OF assms]
  by (simp add: cluster_findings_Nil)

theorem empty_input_witness:
  "build_consensus (ConsensusEngine_init 2 (85 / 100)) [] example_store =
     Inr (\<lparr>consensus_findings = [], rejected_findings = [], total_agents = 0,
           agreement_threshold = 2,
           statistics = \<lparr>total_findings = 0, consensus_count = 0, rejected_count = 0\<rparr>\<rparr>,
          example_store) \<and>
   build_consensus (ConsensusEngine_init 2 (85 / 100))
       [\<lparr>agent = Some ''deepseek'', findings = Some []\<rparr>, \<lparr>agent = None, findings = None\<rparr>]
       example_store =
     Inr (\<lparr>consensus_findings = [], rejected_findings = [], total_agents = 2,
           agreement_threshold = 2,
           statistics = \<lparr>total_findings = 0, consensus_count = 0, rejected_count = 0\<rparr>\<rparr>,
          example_store)"
  using empty_input [of "[]" "ConsensusEngine_init 2 (85 / 100)" example_store]
    empty_input [of "[\<lparr>agent = Some ''deepseek'', findings = Some []\<rparr>,
      \<lparr>agent = None, findings = None\<rparr>]" "ConsensusEngine_init 2 (85 / 100)" example_store]
  by (simp add: findings_of_def dict_get_def ConsensusEngine_init_def)

section \<open>What the engine writes into its input\<close>

text \<open>
  C4, as the claim states it, fails: \<open>build_consensus\<close> writes into the findings it is
  given. The finding at reference 1 of the example has neither \<open>source_agent\<close> nor
  \<open>rejection_reason\<close> before the call and both after it.
\<close>

theorem build_consensus_mutates_counterexample:
  "example_store 1 = secret_key \<and>
   finding_after
     (build_consensus (ConsensusEngine_init 2 (85 / 100)) example_results example_store) 1 =
     Some (secret_key\<lparr>source_agent := Some ''gpt4'',
             rejection_reason := Some ''Only 1 agent(s) agreed''\<rparr>) \<and>
   secret_key\<lparr>source_agent := Some ''gpt4'',
      rejection_reason := Some ''Only 1 agent(s) agreed''\<rparr> \<noteq> secret_key"
  by code_simp

text \<open>
  C4, amended: \<open>build_consensus\<close> returns, and in the store it leaves every object
  equals the original but for the keys \<open>source_agent\<close> and \<open>rejection_reason\<close>; an
  object that is no input finding is unchanged; \<open>rejection_reason\<close> changes on
  rejected findings only; every input finding carries the identifier of a reviewer
  that reported it. A consensus finding is a new dictionary that equals an input
  finding on every key but \<open>consensus_info\<close>; \<open>build_consensus_finding\<close> reads the store
  and returns no new one.
\<close>

theorem build_consensus_frame:
  "\<exists>r h2.
     build_consensus self agent_results h0 = Inr (r, h2) \<and>
     (\<forall>a. h2 a = (h0 a)\<lparr>source_agent := source_agent (h2 a),
                           rejection_reason := rejection_reason (h2 a)\<rparr>) \<and>
     (\<forall>a. a \<notin> set (concat (map findings_of agent_results)) \<longrightarrow> h2 a = h0 a) \<and>
     (\<forall>a. a \<notin> set (rejected_findings r) \<longrightarrow>
        rejection_reason (h2 a) = rejection_reason (h0 a)) \<and>
     (\<forall>a \<in> set (concat (map findings_of agent_results)).
        \<exists>res \<in> set agent_results.
          a \<in> set (findings_of res) \<and> source_agent (h2 a) = Some (agent_of res)) \<and>
     (\<forall>f \<in> set (consensus_findings r).
        \<exists>a \<in> set (concat (map findings_of agent_results)).
          f\<lparr>consensus_info := consensus_info (h2 a)\<rparr> = h2 a)"
proof -
  obtain all h1 where coll: "collect_findings agent_results ([], h0) = (all, h1)"
    and all: "all = concat (map findings_of agent_results)"
    by (rule collect_findings_cases)
  let ?cs = "cluster_findings h1 all"
  let ?m = "min_agreement self"
  let ?big = "filter (\<lambda>c. ?m \<le> int (length c)) ?cs"
  let ?small = "filter (\<lambda>c. int (length c) < ?m) ?cs"
  from build_consensus_eq [OF coll, of self] obtain cons h2 where
    r: "build_consensus self agent_results h0 =
       Inr (\<lparr>consensus_findings = cons, rejected_findings = concat ?small,
             total_agents = length agent_results, agreement_threshold = ?m,
             statistics = \<lparr>total_findings = length all, consensus_count = length cons,
                rejected_count = length (concat ?small)\<rparr>\<rparr>, h2)"
    and l: "map Inr cons = map (build_consensus_finding h1) ?big"
    and s: "\<forall>c \<in> set ?cs. \<forall>a \<in> set c.
        h2 a = (if int (length c) < ?m
                then (h1 a)\<lparr>rejection_reason := Some (rejection_text (length c))\<rparr> else h1 a)"
    and u: "\<forall>a. a \<notin> set all \<longrightarrow> h2 a = h0 a"
    by blast
  have h1: "h1 = snd (collect_findings agent_results ([], h0))" using coll by simp
  have tag: "\<exists>t. h1 a = (h0 a)\<lparr>source_agent := t\<rparr>" for a
  proof -
    have "(h1 a)\<lparr>source_agent := source_agent (h1 a)\<rparr> =
          (h0 a)\<lparr>source_agent := source_agent (h1 a)\<rparr>"
      unfolding h1 by (rule collect_findings_fields)
    then have "h1 a = (h0 a)\<lparr>source_agent := source_agent (h1 a)\<rparr>" by simp
    then show ?thesis ..
  qed
  have in_cluster: "\<exists>c \<in> set ?cs. a \<in> set c" if "a \<in> set all" for a
    using that cluster_findings_Union [of h1 all] by blast
  have step: "h2 a = h1 a \<or> (\<exists>t. h2 a = (h1 a)\<lparr>rejection_reason := t\<rparr>)" if "a \<in> set all" for a
    using in_cluster [OF that] s by metis
  have c1: "\<forall>a. h2 a = (h0 a)\<lparr>source_agent := source_agent (h2 a),
                           rejection_reason := rejection_reason (h2 a)\<rparr>"
  proof
    fix a
    show "h2 a = (h0 a)\<lparr>source_agent := source_agent (h2 a),
                           rejection_reason := rejection_reason (h2 a)\<rparr>"
    proof (cases "a \<in> set all")
      case True
      from tag obtain t where t: "h1 a = (h0 a)\<lparr>source_agent := t\<rparr>" by blast
      from step [OF True] show ?thesis
      proof
        assume "h2 a = h1 a"
        then show ?thesis by (simp add: t)
      next
        assume "\<exists>t. h2 a = (h1 a)\<lparr>rejection_reason := t\<rparr>"
        then obtain t' where "h2 a = (h1 a)\<lparr>rejection_reason := t'\<rparr>" by blast
        then show ?thesis by (simp add: t)
      qed
    next
      case False
      with u have "h2 a = h0 a" by simp
      then show ?thesis by simp
    qed
  qed
  have c3: "\<forall>a. a \<notin> set (concat ?small) \<longrightarrow> rejection_reason (h2 a) = rejection_reason (h0 a)"
  proof (intro allI impI)
    fix a assume n: "a \<notin> set (concat ?small)"
    show "rejection_reason (h2 a) = rejection_reason (h0 a)"
    proof (cases "a \<in> set all")
      case True
      from in_cluster [OF True] obtain c where c: "c \<in> set ?cs" "a \<in> set c" by blast
      with n have "\<not> int (length c) < ?m" by auto
      with s c have "h2 a = h1 a" by simp
      moreover from tag obtain t where "h1 a = (h0 a)\<lparr>source_agent := t\<rparr>" by blast
      ultimately show ?thesis by simp
    next
      case False
      with u show ?thesis by simp
    qed
  qed
  have c4: "\<forall>a \<in> set all. \<exists>res \<in> set agent_results.
          a \<in> set (findings_of res) \<and> source_agent (h2 a) = Some (agent_of res)"
  proof
    fix a assume a: "a \<in> set all"
    from step [OF a] have "source_agent (h2 a) = source_agent (h1 a)" by auto
    moreover from a have "a \<in> set (concat (map findings_of agent_results))" by (simp add: all)
    from collect_findings_tagged [OF this, of "[]" h0]
    have "\<exists>res \<in> set agent_results.
          a \<in> set (findings_of res) \<and> source_agent (h1 a) = Some (agent_of res)"
      unfolding h1 .
    ultimately show "\<exists>res \<in> set agent_results.
          a \<in> set (findings_of res) \<and> source_agent (h2 a) = Some (agent_of res)" by simp
  qed
  have c5: "\<forall>f \<in> set cons. \<exists>a \<in> set all. f\<lparr>consensus_info := consensus_info (h2 a)\<rparr> = h2 a"
  proof
    fix f assume "f \<in> set cons"
    then have "(Inr f :: error + finding) \<in> set (map Inr cons)" by simp
    then have "Inr f \<in> set (map (build_consensus_finding h1) ?big)" unfolding l .
    then obtain c where c: "c \<in> set ?cs" "?m \<le> int (length c)"
      and f: "build_consensus_finding h1 c = Inr f" by auto
    from build_consensus_finding_copy [OF f] obtain a where
      a: "a \<in> set c" "f\<lparr>consensus_info := consensus_info (h1 a)\<rparr> = h1 a" by blast
    from s c a(1) have e: "h2 a = h1 a" by simp
    have "f\<lparr>consensus_info := consensus_info (h2 a)\<rparr> = h2 a"
      unfolding e by (rule a(2))
    moreover from c(1) a(1) have "a \<in> set all"
      using cluster_findings_subset [of c h1 all] by blast
    ultimately show "\<exists>a \<in> set all. f\<lparr>consensus_info := consensus_info (h2 a)\<rparr> = h2 a"
      by blast
  qed
  show ?thesis unfolding r using c1 u c3 c4 c5 unfolding all by simp
qed

theorem build_consensus_frame_witness:
  "(\<exists>r h2.
     build_consensus (ConsensusEngine_init 2 (85 / 100)) example_results example_store = Inr (r, h2) \<and>
     (\<forall>a. h2 a = (example_store a)\<lparr>source_agent := source_agent (h2 a),
                           rejection_reason := rejection_reason (h2 a)\<rparr>) \<and>
     (\<forall>a. a \<notin> set (concat (map findings_of example_results)) \<longrightarrow> h2 a = example_store a) \<and>
     (\<forall>a. a \<notin> set (rejected_findings r) \<longrightarrow>
        rejection_reason (h2 a) = rejection_reason (example_store a)) \<and>
     (\<forall>a \<in> set (concat (map findings_of example_results)).
        \<exists>res \<in> set example_results.
          a \<in> set (findings_of res) \<and> source_agent (h2 a) = Some (agent_of res)) \<and>
     (\<forall>f \<in> set (consensus_findings r).
        \<exists>a \<in> set (concat (map findings_of example_results)).
          f\<lparr>consensus_info := consensus_info (h2 a)\<rparr> = h2 a)) \<and>
   finding_after
     (build_consensus (ConsensusEngine_init 2 (85 / 100)) example_results example_store) 0 =
     Some (sql_login\<lparr>source_agent := Some ''gpt4''\<rparr>) \<and>
   finding_after
     (build_consensus (ConsensusEngine_init 2 (85 / 100)) example_results example_store) 3 =
     Some empty_finding"
proof -
  have a: "finding_after
     (build_consensus (ConsensusEngine_init 2 (85 / 100)) example_results example_store) 0 =
     Some (sql_login\<lparr>source_agent := Some ''gpt4''\<rparr>)"
    by code_simp
  have b: "finding_after
     (build_consensus (ConsensusEngine_init 2 (85 / 100)) example_results example_store) 3 =
     Some empty_finding"
    by code_simp
  from build_consensus_frame [of "ConsensusEngine_init 2 (85 / 100)" example_results example_store] a b
  show ?thesis by blast
qed

end
